theory Spec2Isabelle
  imports Main "HOL-Library.AList"
begin

section \<open>Data model\<close>

text \<open>
  The program is a small object-relational mapper (\<^verbatim>\<open>main.py\<close>). Exceptions of the
  source are values of the type \<open>error\<close>; a call that may raise returns \<open>error + 'a\<close>
  with \<open>Inl\<close> for the exception. \<open>EngineError\<close> stands for whatever the storage
  engine raises (\<^verbatim>\<open>sqlite3.OperationalError\<close> and the like); the mapper never catches
  it.
\<close>

datatype error =
    AssertionError
  | AttributeError
  | KeyError string
  | IndexError
  | TypeError
  | ValueError
  | NotImplementedError
  | EngineError string

text \<open>
  The field classes. \<open>Field\<close> is the abstract base, whose \<^verbatim>\<open>sqlite_type_name\<close>
  raises. A class namespace (\<^verbatim>\<open>vars(cls)\<close>) is an insertion-ordered dictionary, here an
  association list from attribute names to attributes; an attribute is a field
  descriptor or any other object (\<^verbatim>\<open>__module__\<close>, \<^verbatim>\<open>__doc__\<close>, a method, ...).
  A \<^verbatim>\<open>ForeignKeyField\<close> holds the class it points to. Class bodies can only name
  classes that exist already, so the classes reachable from one class form a finite
  tree; this is what the datatype expresses.
\<close>

datatype field =
    Field
  | BooleanField
  | IntField
  | FloatField
  | StringField
  | ForeignKeyField cls
and cls = Cls (cls_name: string) (cls_vars: "(string \<times> pyattr) list")
and pyattr = IsField field | NotField

text \<open>
  Python values that occur as attribute values, row elements and filter values:
  \<^verbatim>\<open>None\<close>, booleans, integers, strings and model instances. An instance carries its
  class, its \<^verbatim>\<open>_id\<close> attribute and the rest of its \<^verbatim>\<open>__dict__\<close> in insertion order.
  Floating-point values are outside the model.
\<close>

datatype pyval =
    VNone
  | VBool bool
  | VInt int
  | VStr string
  | VObj inst
and inst = Inst (inst_cls: cls) (inst_id: pyval) (inst_vars: "(string \<times> pyval) list")

section \<open>Python built-ins used by the program\<close>

definition digit_char :: "nat \<Rightarrow> char" where
  "digit_char d = ''0123456789'' ! (d mod 10)"

function str_nat :: "nat \<Rightarrow> string" where
  "str_nat n = (if n < 10 then [digit_char n] else str_nat (n div 10) @ [digit_char (n mod 10)])"
  by pat_completeness auto
termination
  by (relation "measure id") auto

declare str_nat.simps [simp del]

definition str_int :: "int \<Rightarrow> string" where
  "str_int i = (if i < 0 then CHR ''-'' # str_nat (nat (- i)) else str_nat (nat i))"

text \<open>
  \<^verbatim>\<open>str(v)\<close>, which is also what an f-string placeholder inserts. The default text of
  an instance contains its module path and memory address; the model keeps the class
  name only.
\<close>

fun py_str :: "pyval \<Rightarrow> string" where
  "py_str VNone = ''None''"
| "py_str (VBool b) = (if b then ''True'' else ''False'')"
| "py_str (VInt i) = str_int i"
| "py_str (VStr s) = s"
| "py_str (VObj i) = ''<'' @ cls_name (inst_cls i) @ '' object>''"

text \<open>Truth value of an object (\<^verbatim>\<open>bool(v)\<close>, \<^verbatim>\<open>if v\<close>).\<close>

fun truthy :: "pyval \<Rightarrow> bool" where
  "truthy VNone = False"
| "truthy (VBool b) = b"
| "truthy (VInt i) = (i \<noteq> 0)"
| "truthy (VStr s) = (s \<noteq> [])"
| "truthy (VObj i) = True"

text \<open>\<^verbatim>\<open>v == 1\<close>: in Python \<^verbatim>\<open>True == 1\<close> holds as well.\<close>

fun eq_one :: "pyval \<Rightarrow> bool" where
  "eq_one (VInt i) = (i = 1)"
| "eq_one (VBool b) = b"
| "eq_one _ = False"

text \<open>\<^verbatim>\<open>name.startswith("_")\<close>\<close>

fun startswith_underscore :: "string \<Rightarrow> bool" where
  "startswith_underscore [] = False"
| "startswith_underscore (c # cs) = (c = CHR ''_'')"

section \<open>Connector\<close>

text \<open>
  The storage engine (\<^verbatim>\<open>sqlite3\<close>) is not part of the program. It is a parameter
  \<open>exec\<close> of every operation: given the engine's state and a statement text it
  returns a cursor or raises, and a new state. \<^verbatim>\<open>cursor.execute\<close> followed by
  \<^verbatim>\<open>commit\<close> is one call of \<open>exec\<close>. A cursor holds the rows still to be fetched
  and \<^verbatim>\<open>lastrowid\<close>.
\<close>

record cursor =
  rows :: "pyval list list"
  lastrowid :: pyval

type_synonym 'db engine = "'db \<Rightarrow> string \<Rightarrow> (error + cursor) \<times> 'db"

definition fetchone :: "cursor \<Rightarrow> pyval list option" where
  "fetchone c = (case rows c of [] \<Rightarrow> None | r # _ \<Rightarrow> Some r)"

definition fetchall :: "cursor \<Rightarrow> pyval list list" where
  "fetchall c = rows c"

text \<open>The class attributes \<^verbatim>\<open>DB_NAME\<close> and \<^verbatim>\<open>DB_CONNECTION\<close> of \<^verbatim>\<open>Connector\<close>.\<close>

record 'db connector =
  DB_NAME :: "string option"
  DB_CONNECTION :: "'db option"

definition is_connected :: "'db connector \<Rightarrow> bool" where
  "is_connected st = (DB_CONNECTION st \<noteq> None)"

text \<open>
  \<^verbatim>\<open>disconnnect\<close> asserts \<^verbatim>\<open>cls.is_connected()\<close>, the result of the call.
\<close>

definition disconnnect :: "'db connector \<Rightarrow> (error + unit) \<times> 'db connector" where
  "disconnnect st =
     (if \<not> is_connected st then (Inl AssertionError, st)
      else (Inr (), st\<lparr>DB_CONNECTION := None, DB_NAME := None\<rparr>))"

text \<open>
  \<^verbatim>\<open>execute\<close> asserts \<^verbatim>\<open>cls.is_connected\<close> without calling it: the operand is the
  bound method object, and the truth value of a method object is \<open>True\<close> whatever
  the connection is.
\<close>

definition bound_method_truth :: "'db connector \<Rightarrow> bool" where
  "bound_method_truth st = True"

definition execute :: "'db engine \<Rightarrow> 'db connector \<Rightarrow> string \<Rightarrow> (error + cursor) \<times> 'db connector" where
  "execute exec st sql =
     (if \<not> bound_method_truth st then (Inl AssertionError, st)
      else case DB_CONNECTION st of
             None \<Rightarrow> (Inl AttributeError, st)
           | Some db \<Rightarrow>
               (case exec db sql of
                  (r, db') \<Rightarrow> (r, st\<lparr>DB_CONNECTION := Some db'\<rparr>)))"

section \<open>Field classes\<close>

fun sqlite_type_name :: "field \<Rightarrow> error + string" where
  "sqlite_type_name Field = Inl NotImplementedError"
| "sqlite_type_name BooleanField = Inr ''INTEGER''"
| "sqlite_type_name IntField = Inr ''INTEGER''"
| "sqlite_type_name FloatField = Inr ''REAL''"
| "sqlite_type_name StringField = Inr ''TEXT''"
| "sqlite_type_name (ForeignKeyField oc) = Inr ''INTEGER''"

definition column_declaration :: "field \<Rightarrow> string \<Rightarrow> error + string" where
  "column_declaration f field_name =
     (case sqlite_type_name f of
        Inl e \<Rightarrow> Inl e
      | Inr ty \<Rightarrow> Inr (field_name @ '' '' @ ty))"

fun get_post_declaration_constraint :: "field \<Rightarrow> string \<Rightarrow> string option" where
  "get_post_declaration_constraint (ForeignKeyField oc) field_name =
     Some (''FOREIGN KEY('' @ field_name @ '') REFERENCES '' @ cls_name oc @ ''(rowid)'')"
| "get_post_declaration_constraint _ field_name = None"

text \<open>
  \<^verbatim>\<open>convert\<close>: Python value to storage value. \<^verbatim>\<open>ForeignKeyField.convert\<close> reads
  \<^verbatim>\<open>py_val._id\<close>, which only an instance has.
\<close>

fun convert :: "field \<Rightarrow> pyval \<Rightarrow> error + pyval" where
  "convert BooleanField py_val = Inr (VInt (if truthy py_val then 1 else 0))"
| "convert StringField py_val = Inr (VStr ([CHR 0x27] @ py_str py_val @ [CHR 0x27]))"
| "convert (ForeignKeyField oc) py_val =
     (case py_val of VObj i \<Rightarrow> Inr (inst_id i) | _ \<Rightarrow> Inl AttributeError)"
| "convert _ py_val = Inr py_val"

fun unconvert :: "field \<Rightarrow> pyval \<Rightarrow> pyval" where
  "unconvert BooleanField sqlite_val = VBool (truthy sqlite_val)"
| "unconvert _ sqlite_val = sqlite_val"

text \<open>
  A method call on a class attribute: an attribute that is not a field descriptor has
  none of the methods, and the lookup raises \<^verbatim>\<open>AttributeError\<close>.
\<close>

fun attr_column_declaration :: "pyattr \<Rightarrow> string \<Rightarrow> error + string" where
  "attr_column_declaration (IsField f) field_name = column_declaration f field_name"
| "attr_column_declaration NotField field_name = Inl AttributeError"

fun attr_post_declaration_constraint :: "pyattr \<Rightarrow> string \<Rightarrow> error + string option" where
  "attr_post_declaration_constraint (IsField f) field_name =
     Inr (get_post_declaration_constraint f field_name)"
| "attr_post_declaration_constraint NotField field_name = Inl AttributeError"

fun attr_convert :: "pyattr \<Rightarrow> pyval \<Rightarrow> error + pyval" where
  "attr_convert (IsField f) py_val = convert f py_val"
| "attr_convert NotField py_val = Inl AttributeError"

section \<open>Model\<close>

text \<open>
  The loop that three methods share,
  \<^verbatim>\<open>for i, c in enumerate(columns): sql.append(c); if i != len(columns) - 1: sql.append(", ")\<close>.
  \<open>n\<close> is \<^verbatim>\<open>len(columns)\<close>, \<open>i\<close> the running index and \<open>render\<close> what is
  applied to the element before it is appended (\<^verbatim>\<open>str\<close> in the insert branch).
\<close>

fun append_columns :: "('a \<Rightarrow> string) \<Rightarrow> nat \<Rightarrow> nat \<Rightarrow> 'a list \<Rightarrow> string list \<Rightarrow> string list" where
  "append_columns render n i [] sql = sql"
| "append_columns render n i (c # cs) sql =
     append_columns render n (i + 1) cs
       (if int i \<noteq> int n - 1 then (sql @ [render c]) @ ['', ''] else sql @ [render c])"

text \<open>\<^verbatim>\<open>list(s)\<close> of a string: its characters, each a string of length one.\<close>

definition list_of_str :: "string \<Rightarrow> string list" where
  "list_of_str s = map (\<lambda>c. [c]) s"

definition table_name :: "cls \<Rightarrow> string" where
  "table_name c = cls_name c"

definition table_exists :: "'db engine \<Rightarrow> 'db connector \<Rightarrow> cls \<Rightarrow> (error + bool) \<times> 'db connector" where
  "table_exists exec st c =
     (let sql = ''SELECT count(name) FROM sqlite_master WHERE type='' @ [CHR 0x27] @ ''table''
                  @ [CHR 0x27] @ '' AND name='' @ [CHR 0x27] @ table_name c @ [CHR 0x27]
      in case execute exec st sql of
           (Inl e, st') \<Rightarrow> (Inl e, st')
         | (Inr cur, st') \<Rightarrow>
             (case fetchone cur of
                None \<Rightarrow> (Inl TypeError, st')
              | Some [] \<Rightarrow> (Inl IndexError, st')
              | Some (v # _) \<Rightarrow> (Inr (eq_one v), st')))"

text \<open>The second loop of \<^verbatim>\<open>_create_table\<close>: the constraints, after all columns.\<close>

fun create_constraints :: "(string \<times> pyattr) list \<Rightarrow> string list \<Rightarrow> error + string list" where
  "create_constraints [] columns = Inr columns"
| "create_constraints ((field_name, a) # rest) columns =
     (if \<not> startswith_underscore field_name then
        (case attr_post_declaration_constraint a field_name of
           Inl e \<Rightarrow> Inl e
         | Inr None \<Rightarrow> create_constraints rest columns
         | Inr (Some constr) \<Rightarrow> create_constraints rest (columns @ [constr]))
      else create_constraints rest columns)"

text \<open>
  \<^verbatim>\<open>_ensure_table_exists\<close>, \<^verbatim>\<open>_create_table\<close> and the first loop of the latter, which
  ensures the table of every foreign key's class (whatever the attribute's name) and
  collects the column declarations. \<open>ensure_foreign_table\<close> is the statement
  \<^verbatim>\<open>if isinstance(field, ForeignKeyField): field.other_cls._ensure_table_exists()\<close>.
\<close>

function (sequential)
  ensure_table_exists :: "'db engine \<Rightarrow> 'db connector \<Rightarrow> cls \<Rightarrow> (error + unit) \<times> 'db connector"
and create_table :: "'db engine \<Rightarrow> 'db connector \<Rightarrow> cls \<Rightarrow> (error + unit) \<times> 'db connector"
and create_columns :: "'db engine \<Rightarrow> 'db connector \<Rightarrow> (string \<times> pyattr) list \<Rightarrow> string list
                        \<Rightarrow> (error + string list) \<times> 'db connector"
and ensure_foreign_table :: "'db engine \<Rightarrow> 'db connector \<Rightarrow> pyattr \<Rightarrow> (error + unit) \<times> 'db connector"
where
  "ensure_table_exists exec st c =
     (case table_exists exec st c of
        (Inl e, st') \<Rightarrow> (Inl e, st')
      | (Inr b, st') \<Rightarrow> if \<not> b then create_table exec st' c else (Inr (), st'))"
| "create_table exec st c =
     (case create_columns exec st (cls_vars c) [] of
        (Inl e, st') \<Rightarrow> (Inl e, st')
      | (Inr columns, st') \<Rightarrow>
          (case create_constraints (cls_vars c) columns of
             Inl e \<Rightarrow> (Inl e, st')
           | Inr columns' \<Rightarrow>
               (let sql = append_columns id (length columns') 0 columns'
                            (list_of_str (''CREATE TABLE '' @ table_name c @ '' (''))
                in case execute exec st' (concat (sql @ ['')''])) of
                     (Inl e, st'') \<Rightarrow> (Inl e, st'')
                   | (Inr cur, st'') \<Rightarrow> (Inr (), st''))))"
| "create_columns exec st [] columns = (Inr columns, st)"
| "create_columns exec st ((field_name, a) # rest) columns =
     (case ensure_foreign_table exec st a of
        (Inl e, st') \<Rightarrow> (Inl e, st')
      | (Inr u, st') \<Rightarrow>
          (if \<not> startswith_underscore field_name then
             (case attr_column_declaration a field_name of
                Inl e \<Rightarrow> (Inl e, st')
              | Inr d \<Rightarrow> create_columns exec st' rest (columns @ [d]))
           else create_columns exec st' rest columns))"
| "ensure_foreign_table exec st (IsField (ForeignKeyField oc)) = ensure_table_exists exec st oc"
| "ensure_foreign_table exec st a = (Inr (), st)"
  by pat_completeness auto
termination
  by (relation "measure (\<lambda>x. case x of
          Inl (Inl (exec, st, c)) \<Rightarrow> 2 * size c + 1
        | Inl (Inr (exec, st, c)) \<Rightarrow> 2 * size c
        | Inr (Inl (exec, st, l, columns)) \<Rightarrow> 2 * size_list (size_prod (\<lambda>x. 0) size) l + 1
        | Inr (Inr (exec, st, a)) \<Rightarrow> 2 * size a)")
     (auto, case_tac c, auto)

section \<open>Decoding rows\<close>

text \<open>\<^verbatim>\<open>setattr(obj, name, value)\<close> on an instance: an entry of its \<^verbatim>\<open>__dict__\<close>.\<close>

definition setattr :: "inst \<Rightarrow> string \<Rightarrow> pyval \<Rightarrow> inst" where
  "setattr obj field_name v =
     Inst (inst_cls obj) (inst_id obj) (AList.update field_name v (inst_vars obj))"

text \<open>
  \<^verbatim>\<open>init_from_db_tuple\<close>, its loop over the class namespace and \<^verbatim>\<open>load_fk_field\<close>.
  \<^verbatim>\<open>rowid, *vals = tup\<close> raises \<^verbatim>\<open>ValueError\<close> on an empty tuple. \<open>decode_value\<close>
  is the value the loop body passes to \<^verbatim>\<open>setattr\<close>: the loaded instance for a foreign
  key, \<^verbatim>\<open>field.unconvert(vals[idx])\<close> otherwise. \<^verbatim>\<open>fetchone\<close> may return \<^verbatim>\<open>None\<close>, which
  the unpacking in \<^verbatim>\<open>init_from_db_tuple\<close> rejects with \<^verbatim>\<open>TypeError\<close>.
\<close>

function (sequential)
  init_from_db_tuple :: "'db engine \<Rightarrow> 'db connector \<Rightarrow> cls \<Rightarrow> pyval list \<Rightarrow> (error + inst) \<times> 'db connector"
and decode_fields :: "'db engine \<Rightarrow> 'db connector \<Rightarrow> (string \<times> pyattr) list \<Rightarrow> pyval list \<Rightarrow> nat
                       \<Rightarrow> inst \<Rightarrow> (error + inst) \<times> 'db connector"
and decode_value :: "'db engine \<Rightarrow> 'db connector \<Rightarrow> pyattr \<Rightarrow> pyval list \<Rightarrow> nat
                       \<Rightarrow> (error + pyval) \<times> 'db connector"
and load_fk_field :: "'db engine \<Rightarrow> 'db connector \<Rightarrow> field \<Rightarrow> pyval \<Rightarrow> (error + inst) \<times> 'db connector"
where
  "init_from_db_tuple exec st c [] = (Inl ValueError, st)"
| "init_from_db_tuple exec st c (rowid # vals) =
     (case decode_fields exec st (cls_vars c) vals 0 (Inst c VNone []) of
        (Inl e, st') \<Rightarrow> (Inl e, st')
      | (Inr obj, st') \<Rightarrow> (Inr (Inst (inst_cls obj) rowid (inst_vars obj)), st'))"
| "decode_fields exec st [] vals idx obj = (Inr obj, st)"
| "decode_fields exec st ((field_name, a) # rest) vals idx obj =
     (if \<not> startswith_underscore field_name then
        (case decode_value exec st a vals idx of
           (Inl e, st') \<Rightarrow> (Inl e, st')
         | (Inr v, st') \<Rightarrow> decode_fields exec st' rest vals (idx + 1) (setattr obj field_name v))
      else decode_fields exec st rest vals idx obj)"
| "decode_value exec st (IsField (ForeignKeyField oc)) vals idx =
     (if idx < length vals then
        (case load_fk_field exec st (ForeignKeyField oc) (vals ! idx) of
           (Inl e, st') \<Rightarrow> (Inl e, st')
         | (Inr loaded, st') \<Rightarrow> (Inr (VObj loaded), st'))
      else (Inl IndexError, st))"
| "decode_value exec st (IsField f) vals idx =
     (if idx < length vals then (Inr (unconvert f (vals ! idx)), st) else (Inl IndexError, st))"
| "decode_value exec st NotField vals idx = (Inl AttributeError, st)"
| "load_fk_field exec st (ForeignKeyField oc) other_id =
     (case execute exec st
             (''SELECT rowid, * FROM '' @ table_name oc @ '' WHERE rowid='' @ py_str other_id
                @ '' LIMIT 1'') of
        (Inl e, st') \<Rightarrow> (Inl e, st')
      | (Inr cur, st') \<Rightarrow>
          (case fetchone cur of
             None \<Rightarrow> (Inl TypeError, st')
           | Some tup \<Rightarrow> init_from_db_tuple exec st' oc tup))"
| "load_fk_field exec st f other_id = (Inl AttributeError, st)"
  by pat_completeness auto
termination
  by (relation "measure (\<lambda>x. case x of
          Inl (Inl (exec, st, c, tup)) \<Rightarrow> size c
        | Inl (Inr (exec, st, l, vals, idx, obj)) \<Rightarrow> size_list (size_prod (\<lambda>x. 0) size) l
        | Inr (Inl (exec, st, a, vals, idx)) \<Rightarrow> size a
        | Inr (Inr (exec, st, f, other_id)) \<Rightarrow> size f)")
     (auto, case_tac c, auto)

section \<open>Saving and deleting\<close>

text \<open>
  \<^verbatim>\<open>field.convert(vars(self)[field_name])\<close>: the method is looked up first, then the
  instance attribute (\<^verbatim>\<open>KeyError\<close> when it was never assigned), then the call is made.
\<close>

definition convert_attribute :: "pyattr \<Rightarrow> inst \<Rightarrow> string \<Rightarrow> error + pyval" where
  "convert_attribute a self field_name =
     (case a of
        NotField \<Rightarrow> Inl AttributeError
      | IsField f \<Rightarrow>
          (case map_of (inst_vars self) field_name of
             None \<Rightarrow> Inl (KeyError field_name)
           | Some v \<Rightarrow> convert f v))"

text \<open>The column loops of the two branches of \<^verbatim>\<open>save\<close>.\<close>

fun insert_columns :: "(string \<times> pyattr) list \<Rightarrow> inst \<Rightarrow> pyval list \<Rightarrow> error + pyval list" where
  "insert_columns [] self columns = Inr columns"
| "insert_columns ((field_name, a) # rest) self columns =
     (if \<not> startswith_underscore field_name then
        (case convert_attribute a self field_name of
           Inl e \<Rightarrow> Inl e
         | Inr v \<Rightarrow> insert_columns rest self (columns @ [v]))
      else insert_columns rest self columns)"

fun update_columns :: "(string \<times> pyattr) list \<Rightarrow> inst \<Rightarrow> string list \<Rightarrow> error + string list" where
  "update_columns [] self columns = Inr columns"
| "update_columns ((field_name, a) # rest) self columns =
     (if \<not> startswith_underscore field_name then
        (case convert_attribute a self field_name of
           Inl e \<Rightarrow> Inl e
         | Inr v \<Rightarrow> update_columns rest self (columns @ [field_name @ ''='' @ py_str v]))
      else update_columns rest self columns)"

text \<open>
  \<^verbatim>\<open>save\<close> returns the instance as the call leaves it: with \<^verbatim>\<open>_id\<close> assigned from
  \<^verbatim>\<open>cursor.lastrowid\<close> in the insert branch, untouched in the update branch.
\<close>

definition save :: "'db engine \<Rightarrow> 'db connector \<Rightarrow> inst \<Rightarrow> (error + inst) \<times> 'db connector" where
  "save exec st self =
     (case ensure_table_exists exec st (inst_cls self) of
        (Inl e, st') \<Rightarrow> (Inl e, st')
      | (Inr u, st') \<Rightarrow>
          (if inst_id self = VNone then
             (case insert_columns (cls_vars (inst_cls self)) self [] of
                Inl e \<Rightarrow> (Inl e, st')
              | Inr columns \<Rightarrow>
                  (let sql = append_columns py_str (length columns) 0 columns
                               (list_of_str (''INSERT INTO '' @ table_name (inst_cls self) @ '' VALUES (''));
                       cmd = concat (sql @ ['')''])
                   in case execute exec st' cmd of
                        (Inl e, st'') \<Rightarrow> (Inl e, st'')
                      | (Inr cur, st'') \<Rightarrow>
                          (Inr (Inst (inst_cls self) (lastrowid cur) (inst_vars self)), st'')))
           else
             (case update_columns (cls_vars (inst_cls self)) self [] of
                Inl e \<Rightarrow> (Inl e, st')
              | Inr columns \<Rightarrow>
                  (let sql = append_columns id (length columns) 0 columns
                               (list_of_str (''UPDATE '' @ table_name (inst_cls self) @ '' SET ''));
                       cmd = concat (sql @ ['' WHERE rowid='' @ py_str (inst_id self)])
                   in case execute exec st' cmd of
                        (Inl e, st'') \<Rightarrow> (Inl e, st'')
                      | (Inr cur, st'') \<Rightarrow> (Inr self, st'')))))"

text \<open>\<^verbatim>\<open>delete\<close> assigns nothing on the instance; it is returned as it was.\<close>

definition delete :: "'db engine \<Rightarrow> 'db connector \<Rightarrow> inst \<Rightarrow> (error + inst) \<times> 'db connector" where
  "delete exec st self =
     (case ensure_table_exists exec st (inst_cls self) of
        (Inl e, st') \<Rightarrow> (Inl e, st')
      | (Inr u, st') \<Rightarrow>
          (let sql = ''DELETE FROM '' @ table_name (inst_cls self) @ '' WHERE rowid=''
                       @ py_str (inst_id self)
           in case execute exec st' sql of
                (Inl e, st'') \<Rightarrow> (Inl e, st'')
              | (Inr cur, st'') \<Rightarrow> (Inr self, st'')))"

section \<open>QuerySet\<close>

record queryset =
  filter_kwargs :: "(string \<times> pyval) list"
  model_cls :: cls
  query_result :: cursor
  items :: "pyval list list"

text \<open>
  The loop of \<^verbatim>\<open>get_query_string\<close> over \<^verbatim>\<open>filter_kwargs.items()\<close>; \<open>n\<close> is the number of
  filters and \<open>i\<close> the counter. \<open>convert_filter\<close> is
  \<^verbatim>\<open>vars(self.model_cls)[k].convert(v)\<close>, where the lookup raises \<^verbatim>\<open>KeyError\<close> for a name
  that the class namespace does not hold.
\<close>

definition convert_filter :: "cls \<Rightarrow> string \<Rightarrow> pyval \<Rightarrow> error + pyval" where
  "convert_filter c k v =
     (case map_of (cls_vars c) k of
        None \<Rightarrow> Inl (KeyError k)
      | Some a \<Rightarrow> attr_convert a v)"

fun query_conditions :: "cls \<Rightarrow> nat \<Rightarrow> nat \<Rightarrow> (string \<times> pyval) list \<Rightarrow> string list \<Rightarrow> error + string list" where
  "query_conditions c n i [] sql = Inr sql"
| "query_conditions c n i ((k, v) # rest) sql =
     (case convert_filter c k v of
        Inl e \<Rightarrow> Inl e
      | Inr converted_val \<Rightarrow>
          query_conditions c n (i + 1) rest
            (if int i \<noteq> int n - 1
             then (sql @ [k @ ''='' @ py_str converted_val @ '' '']) @ [''AND '']
             else sql @ [k @ ''='' @ py_str converted_val @ '' '']))"

definition get_query_string :: "cls \<Rightarrow> (string \<times> pyval) list \<Rightarrow> error + string" where
  "get_query_string c kwargs =
     (let sql = list_of_str (''SELECT rowid, * FROM '' @ table_name c);
          sql' = (if kwargs \<noteq> [] then sql @ ['' WHERE ''] else sql)
      in case query_conditions c (length kwargs) 0 kwargs sql' of
           Inl e \<Rightarrow> Inl e
         | Inr sql'' \<Rightarrow> Inr (concat sql''))"

text \<open>\<^verbatim>\<open>QuerySet.__init__\<close>, with the keyword arguments already bound.\<close>

definition QuerySet_init :: "'db engine \<Rightarrow> 'db connector \<Rightarrow> cls \<Rightarrow> (string \<times> pyval) list
                               \<Rightarrow> (error + queryset) \<times> 'db connector" where
  "QuerySet_init exec st c kwargs =
     (case get_query_string c kwargs of
        Inl e \<Rightarrow> (Inl e, st)
      | Inr q \<Rightarrow>
          (case execute exec st q of
             (Inl e, st') \<Rightarrow> (Inl e, st')
           | (Inr cur, st') \<Rightarrow>
               (Inr \<lparr>filter_kwargs = kwargs, model_cls = c, query_result = cur,
                     items = fetchall cur\<rparr>, st')))"

text \<open>
  \<^verbatim>\<open>Model.objects(**kwargs)\<close> is \<^verbatim>\<open>QuerySet(cls, **kwargs)\<close>. A keyword named
  \<^verbatim>\<open>cls\<close>, \<^verbatim>\<open>self\<close> or \<^verbatim>\<open>model_cls\<close> collides with a positional parameter of
  one of the two calls, and Python raises \<^verbatim>\<open>TypeError\<close> when it binds the arguments,
  before any statement is built.
\<close>

definition objects :: "'db engine \<Rightarrow> 'db connector \<Rightarrow> cls \<Rightarrow> (string \<times> pyval) list
                         \<Rightarrow> (error + queryset) \<times> 'db connector" where
  "objects exec st c kwargs =
     (if ''cls'' \<in> fst ` set kwargs \<or> ''self'' \<in> fst ` set kwargs
         \<or> ''model_cls'' \<in> fst ` set kwargs
      then (Inl TypeError, st)
      else QuerySet_init exec st c kwargs)"

text \<open>
  \<^verbatim>\<open>self.items[key]\<close> for an integer key is Python's list indexing: a negative key
  counts from the end, and a key outside \<open>-len .. len - 1\<close> raises \<^verbatim>\<open>IndexError\<close>.
\<close>

definition list_getitem :: "'a list \<Rightarrow> int \<Rightarrow> error + 'a" where
  "list_getitem xs key =
     (if 0 \<le> key \<and> key < int (length xs) then Inr (xs ! nat key)
      else if key < 0 \<and> - int (length xs) \<le> key then Inr (xs ! nat (int (length xs) + key))
      else Inl IndexError)"

definition QuerySet_getitem :: "'db engine \<Rightarrow> 'db connector \<Rightarrow> queryset \<Rightarrow> int
                                  \<Rightarrow> (error + inst) \<times> 'db connector" where
  "QuerySet_getitem exec st qs key =
     (case list_getitem (items qs) key of
        Inl e \<Rightarrow> (Inl e, st)
      | Inr tup \<Rightarrow> init_from_db_tuple exec st (model_cls qs) tup)"

definition QuerySet_count :: "queryset \<Rightarrow> nat" where
  "QuerySet_count qs = length (items qs)"

section \<open>Notions of the specification\<close>

text \<open>
  The schema of a record type as the specification words it (\<open>fieldsOf\<close>): the declared
  attributes in declaration order, without the names that begin with an underscore.
  The program has no such function; each of its loops filters the class namespace
  itself.
\<close>

abbreviation visible :: "(string \<times> 'a) list \<Rightarrow> (string \<times> 'a) list" where
  "visible l \<equiv> filter (\<lambda>p. \<not> startswith_underscore (fst p)) l"

definition fields_of :: "cls \<Rightarrow> (string \<times> pyattr) list" where
  "fields_of c = visible (cls_vars c)"

text \<open>\<open>sep.join(xs)\<close>: the elements with the separator between neighbours.\<close>

fun join_with :: "string \<Rightarrow> string list \<Rightarrow> string" where
  "join_with sep [] = []"
| "join_with sep [x] = x"
| "join_with sep (x # y # ys) = x @ sep @ join_with sep (y # ys)"

text \<open>
  The selection statement as the specification gives its shape:
  \<^verbatim>\<open>SELECT rowid, * FROM <Name>\<close>, followed when there are conditions by
  \<^verbatim>\<open>WHERE <col1>=<v1> AND <col2>=<v2> ...\<close> and no other text. A condition is a column
  name with the text of its storage value.
\<close>

definition spec_query_string :: "string \<Rightarrow> (string \<times> string) list \<Rightarrow> string" where
  "spec_query_string name conds =
     ''SELECT rowid, * FROM '' @ name @
       (if conds = [] then []
        else '' WHERE '' @ join_with '' AND '' (map (\<lambda>p. fst p @ ''='' @ snd p) conds))"

text \<open>
  The value a single-quoted literal of statement text denotes: the characters between the
  opening and the closing quote, where a quote inside the literal is written twice.
  \<open>None\<close> when the text is not one well-delimited literal. \<open>literal_body\<close> reads
  what follows the opening quote.
\<close>

fun literal_body :: "string \<Rightarrow> string option" where
  "literal_body [] = None"
| "literal_body [c] = (if c = CHR 0x27 then Some [] else None)"
| "literal_body (c # d # cs) =
     (if c = CHR 0x27 then
        (if d = CHR 0x27 then map_option (\<lambda>r. CHR 0x27 # r) (literal_body cs) else None)
      else map_option (\<lambda>r. c # r) (literal_body (d # cs)))"

definition literal_value :: "string \<Rightarrow> string option" where
  "literal_value s = (case s of [] \<Rightarrow> None
                      | c # cs \<Rightarrow> if c = CHR 0x27 then literal_body cs else None)"

section \<open>A scripted storage engine\<close>

text \<open>
  A stand-in for the storage engine, for running the model on concrete inputs: its state
  is the list of statements received so far and the list of cursors still to hand out;
  each statement is recorded and answered with the next cursor. With no cursor left the
  engine raises.
\<close>

definition scripted :: "(string list \<times> cursor list) engine" where
  "scripted db sql =
     (case snd db of
        [] \<Rightarrow> (Inl (EngineError ''script exhausted''), (fst db @ [sql], []))
      | c # cs \<Rightarrow> (Inr c, (fst db @ [sql], cs)))"

definition connected :: "cursor list \<Rightarrow> (string list \<times> cursor list) connector" where
  "connected script = \<lparr>DB_NAME = Some '':memory:'', DB_CONNECTION = Some ([], script)\<rparr>"

definition answer :: "pyval list list \<Rightarrow> pyval \<Rightarrow> cursor" where
  "answer rs rid = \<lparr>rows = rs, lastrowid = rid\<rparr>"

text \<open>The statements the scripted engine has received, in order.\<close>

definition statements :: "(string list \<times> cursor list) connector \<Rightarrow> string list" where
  "statements st = (case DB_CONNECTION st of None \<Rightarrow> [] | Some db \<Rightarrow> fst db)"

text \<open>The text of the table-existence probe for a table name.\<close>

definition probe :: "string \<Rightarrow> string" where
  "probe name = ''SELECT count(name) FROM sqlite_master WHERE type='' @ [CHR 0x27] @ ''table''
                  @ [CHR 0x27] @ '' AND name='' @ [CHR 0x27] @ name @ [CHR 0x27]"

section \<open>Declarations of the test suite\<close>

text \<open>
  Record types as the tests of \<^verbatim>\<open>main.py\<close> declare them, with the entries Python itself
  puts into a class namespace.
\<close>

definition Coord3D :: cls where
  "Coord3D = Cls ''Coord3D''
     [(''__module__'', NotField),
      (''x'', IsField IntField), (''y'', IsField IntField), (''z'', IsField IntField),
      (''name'', IsField StringField), (''__doc__'', NotField)]"

definition Course :: cls where
  "Course = Cls ''Course''
     [(''__module__'', NotField),
      (''dept'', IsField StringField), (''name'', IsField StringField),
      (''__doc__'', NotField)]"

definition EnrollmentRecord :: cls where
  "EnrollmentRecord = Cls ''EnrollmentRecord''
     [(''__module__'', NotField),
      (''course'', IsField (ForeignKeyField Course)), (''seat'', IsField IntField),
      (''__doc__'', NotField)]"

text \<open>A record type with an attribute that is reserved by its name but holds a field.\<close>

definition Tagged :: cls where
  "Tagged = Cls ''Tagged''
     [(''__module__'', NotField),
      (''label'', IsField StringField), (''_shadow'', IsField IntField),
      (''__doc__'', NotField)]"

text \<open>The point \<^verbatim>\<open>p1\<close> of \<^verbatim>\<open>test_update_only_changes_one\<close>, before and after its first save.\<close>

definition p1_new :: inst where
  "p1_new = Inst Coord3D VNone
     [(''name'', VStr ''p1''), (''x'', VInt 1), (''y'', VInt 2), (''z'', VInt 3)]"

definition p1_saved :: inst where
  "p1_saved = Inst Coord3D (VInt 1)
     [(''name'', VStr ''p1''), (''x'', VInt 1), (''y'', VInt 2), (''z'', VInt 3)]"

text \<open>A saved course and an enrollment that refers to it.\<close>

definition chem :: inst where
  "chem = Inst Course (VInt 7) [(''name'', VStr ''General Chemistry''), (''dept'', VStr ''Science'')]"

definition enrollment :: inst where
  "enrollment = Inst EnrollmentRecord VNone [(''course'', VObj chem), (''seat'', VInt 12)]"

text \<open>A result set of two rows of \<open>Coord3D\<close>.\<close>

definition snapshot :: queryset where
  "snapshot = \<lparr>filter_kwargs = [], model_cls = Coord3D, query_result = answer [] VNone,
               items = [[VInt 1, VInt 1, VInt 2, VInt 3, VStr ''p1''],
                        [VInt 2, VInt 1, VInt 3, VInt 2, VStr ''p2'']]\<rparr>"

section \<open>A reading of UPDATE statements\<close>

text \<open>
  What the program hands to the engine is text, and which rows an \<^verbatim>\<open>UPDATE\<close> touches is
  decided by the engine's reading of that text. This section gives a small engine that
  reads statement text by the lexical rules of the SQL dialect the program targets: blanks
  separate tokens, a single-quoted literal runs to its closing quote (a quote inside is
  written twice), and \<^verbatim>\<open>--\<close> starts a comment that runs to the end of the line. It
  understands the table-existence probe and \<^verbatim>\<open>UPDATE t SET c=v, ... WHERE rowid=n\<close>, and
  raises on anything else. Its state maps table names to rows; a row is its rowid and the
  tokens written to its columns.
\<close>

datatype token = Word string | Literal string | Symbol char

definition word_char :: "char \<Rightarrow> bool" where
  "word_char c =
     (c \<in> set ''abcdefghijklmnopqrstuvwxyzABCDEFGHIJKLMNOPQRSTUVWXYZ0123456789_'')"



text \<open>The assignments of a \<^verbatim>\<open>SET\<close> list, and the tokens that follow the list.\<close>

fun is_symbol :: "token \<Rightarrow> bool" where
  "is_symbol (Symbol s) = True"
| "is_symbol _ = False"

fun assignments :: "token list \<Rightarrow> ((string \<times> token) list \<times> token list) option" where
  "assignments (Word col # Symbol e # v # rest) =
     (if e = CHR ''='' \<and> \<not> is_symbol v then
        (case rest of
           Symbol s # rest' \<Rightarrow>
             (if s = CHR '','' then map_option (\<lambda>(as, r). ((col, v) # as, r)) (assignments rest')
              else Some ([(col, v)], rest))
         | _ \<Rightarrow> Some ([(col, v)], rest))
      else None)"
| "assignments _ = None"

definition update_statement :: "token list \<Rightarrow> (string \<times> (string \<times> token) list \<times> string) option" where
  "update_statement ts =
     (case ts of
        Word u # Word t # Word s # rest \<Rightarrow>
          (if u = ''UPDATE'' \<and> s = ''SET'' then
             (case assignments rest of
                Some (as, [Word w, Word r, Symbol e, Word n]) \<Rightarrow>
                  (if w = ''WHERE'' \<and> r = ''rowid'' \<and> e = CHR ''='' then Some (t, as, n) else None)
              | _ \<Rightarrow> None)
           else None)
      | _ \<Rightarrow> None)"








text \<open>
  Text that the lexical rules read as one token: a word (word characters only) or a
  single-quoted literal with no quote inside.
\<close>

definition plain_word :: "string \<Rightarrow> bool" where
  "plain_word w = (w \<noteq> [] \<and> list_all word_char w)"



definition token_of_text :: "string \<Rightarrow> token" where
  "token_of_text s = (if plain_word s then Word s else Literal (butlast (tl s)))"




section \<open>Lemmas about the loops\<close>


lemma append_columns_concat:
  "n = i + length cs \<Longrightarrow>
   concat (append_columns render n i cs sql) = concat sql @ join_with '', '' (map render cs)"
proof (induction cs arbitrary: i sql)
  case Nil
  then show ?case by simp
next
  case (Cons c cs)
  show ?case
  proof (cases cs)
    case Nil
    with Cons.prems show ?thesis by simp
  next
    case (Cons d ds)
    have "int i \<noteq> int n - 1" using Cons.prems Cons by simp
    moreover have "n = (i + 1) + length cs" using Cons.prems by simp
    ultimately show ?thesis
      using Cons.IH [of "i + 1"] Cons by simp
  qed
qed

lemma concat_list_of_str [simp]: "concat (list_of_str s) = s"
  by (induction s) (simp_all add: list_of_str_def)

lemma insert_columns_Inr:
  "map (\<lambda>p. convert_attribute (snd p) self (fst p)) (visible l) = map Inr vs \<Longrightarrow>
   insert_columns l self columns = Inr (columns @ vs)"
proof (induction l arbitrary: columns vs)
  case Nil
  then show ?case by simp
next
  case (Cons p l)
  obtain field_name a where p: "p = (field_name, a)" by (cases p)
  show ?case
  proof (cases "startswith_underscore field_name")
    case True
    with Cons p show ?thesis by simp
  next
    case False
    with Cons.prems p obtain v vs' where vs: "vs = v # vs'"
      and v: "convert_attribute a self field_name = Inr v"
      and rest: "map (\<lambda>p. convert_attribute (snd p) self (fst p)) (visible l) = map Inr vs'"
      by (cases vs) auto
    from Cons.IH [OF rest, of "columns @ [v]"] False p v vs show ?thesis by simp
  qed
qed

lemma insert_columns_values:
  "insert_columns l self columns = Inr vals \<Longrightarrow>
   \<exists>vs. vals = columns @ vs \<and>
        map (\<lambda>p. convert_attribute (snd p) self (fst p)) (visible l) = map Inr vs"
proof (induction l arbitrary: columns)
  case Nil
  then show ?case by simp
next
  case (Cons p l)
  obtain field_name a where p: "p = (field_name, a)" by (cases p)
  show ?case
  proof (cases "startswith_underscore field_name")
    case True
    with Cons p show ?thesis by simp
  next
    case False
    with Cons.prems p obtain v where v: "convert_attribute a self field_name = Inr v"
      and rest: "insert_columns l self (columns @ [v]) = Inr vals"
      by (auto split: sum.splits)
    from Cons.IH [OF rest] obtain vs where "vals = (columns @ [v]) @ vs"
      and "map (\<lambda>p. convert_attribute (snd p) self (fst p)) (visible l) = map Inr vs" by blast
    with False p v show ?thesis by (intro exI [of _ "v # vs"]) simp
  qed
qed

lemma update_columns_Inr:
  "map (\<lambda>p. convert_attribute (snd p) self (fst p)) (visible l) = map Inr vs \<Longrightarrow>
   update_columns l self columns =
     Inr (columns @ map (\<lambda>(p, v). fst p @ ''='' @ py_str v) (zip (visible l) vs))"
proof (induction l arbitrary: columns vs)
  case Nil
  then show ?case by simp
next
  case (Cons p l)
  obtain field_name a where p: "p = (field_name, a)" by (cases p)
  show ?case
  proof (cases "startswith_underscore field_name")
    case True
    with Cons p show ?thesis by simp
  next
    case False
    with Cons.prems p obtain v vs' where vs: "vs = v # vs'"
      and v: "convert_attribute a self field_name = Inr v"
      and rest: "map (\<lambda>p. convert_attribute (snd p) self (fst p)) (visible l) = map Inr vs'"
      by (cases vs) auto
    from Cons.IH [OF rest, of "columns @ [field_name @ ''='' @ py_str v]"] False p v vs
    show ?thesis by simp
  qed
qed

lemma query_conditions_Inr:
  "map (\<lambda>p. convert_filter c (fst p) (snd p)) kwargs = map Inr cvs \<Longrightarrow>
   n = i + length kwargs \<Longrightarrow>
   \<exists>sql'. query_conditions c n i kwargs sql = Inr sql' \<and>
          concat sql' = concat sql @
            join_with ''AND '' (map (\<lambda>(p, cv). fst p @ ''='' @ py_str cv @ '' '') (zip kwargs cvs))"
proof (induction kwargs arbitrary: i sql cvs)
  case Nil
  then show ?case by simp
next
  case (Cons p kwargs)
  obtain k v where p: "p = (k, v)" by (cases p)
  from Cons.prems(1) p obtain cv cvs' where cvs: "cvs = cv # cvs'"
    and cv: "convert_filter c k v = Inr cv"
    and rest: "map (\<lambda>p. convert_filter c (fst p) (snd p)) kwargs = map Inr cvs'"
    by (cases cvs) auto
  have n: "n = (i + 1) + length kwargs" using Cons.prems(2) by simp
  show ?case
  proof (cases kwargs)
    case Nil
    with Cons.prems(2) p cv cvs rest show ?thesis by simp
  next
    case (Cons q qs)
    then have ne: "int i \<noteq> int n - 1" using Cons.prems(2) by simp
    from Cons rest obtain cw cws where cvs': "cvs' = cw # cws" by (cases cvs') auto
    from Cons.IH [OF rest n, of "(sql @ [k @ ''='' @ py_str cv @ '' '']) @ [''AND '']"]
    show ?thesis using p cv cvs ne Cons cvs' by simp
  qed
qed

lemma query_conditions_KeyError:
  "map_of (cls_vars c) k = None \<Longrightarrow>
   \<forall>p\<in>set pre. \<exists>cv. convert_filter c (fst p) (snd p) = Inr cv \<Longrightarrow>
   query_conditions c n i (pre @ (k, v) # post) sql = Inl (KeyError k)"
proof (induction pre arbitrary: i sql)
  case Nil
  then show ?case by (simp add: convert_filter_def)
next
  case (Cons p pre)
  obtain k' v' where p: "p = (k', v')" by (cases p)
  from Cons.prems(2) p obtain cv where "convert_filter c k' v' = Inr cv" by auto
  with Cons.IH [OF Cons.prems(1)] Cons.prems(2) p show ?case by simp
qed

lemma query_conditions_fails:
  "map_of (cls_vars c) k = None \<Longrightarrow> k \<in> fst ` set kwargs \<Longrightarrow>
   \<exists>e. query_conditions c n i kwargs sql = Inl e"
proof (induction kwargs arbitrary: i sql)
  case Nil
  then show ?case by simp
next
  case (Cons p kwargs)
  obtain k' v' where p: "p = (k', v')" by (cases p)
  show ?case
  proof (cases "convert_filter c k' v'")
    case (Inl e)
    with p show ?thesis by simp
  next
    case (Inr cv)
    then have "k' \<noteq> k" using Cons.prems(1) by (auto simp: convert_filter_def)
    with Cons.prems(2) p have "k \<in> fst ` set kwargs" by auto
    from Cons.IH [OF Cons.prems(1) this] Inr p show ?thesis by simp
  qed
qed

section \<open>Lemmas about decoding\<close>

lemma inst_setattr [simp]:
  "inst_cls (setattr obj n v) = inst_cls obj"
  "inst_id (setattr obj n v) = inst_id obj"
  "map_of (inst_vars (setattr obj n v)) = (map_of (inst_vars obj))(n \<mapsto> v)"
  by (simp_all add: setattr_def update_conv')

lemma decode_fields_frame:
  "decode_fields exec st l vals idx obj = (Inr obj', st') \<Longrightarrow>
   inst_cls obj' = inst_cls obj \<and> inst_id obj' = inst_id obj \<and>
   (\<forall>n. n \<notin> fst ` set (visible l) \<longrightarrow> map_of (inst_vars obj') n = map_of (inst_vars obj) n)"
proof (induction l arbitrary: st idx obj)
  case Nil
  then show ?case by simp
next
  case (Cons p l)
  obtain field_name a where p: "p = (field_name, a)" by (cases p)
  show ?case
  proof (cases "startswith_underscore field_name")
    case True
    with Cons p show ?thesis by simp
  next
    case False
    with Cons.prems p obtain v s where
      r: "decode_fields exec s l vals (idx + 1) (setattr obj field_name v) = (Inr obj', st')"
      by (auto split: prod.splits sum.splits)
    from Cons.IH [OF r] False p show ?thesis by auto
  qed
qed

lemma decode_fields_positions:
  "decode_fields exec st l vals idx obj = (Inr obj', st') \<Longrightarrow> distinct (map fst l) \<Longrightarrow>
   j < length (visible l) \<Longrightarrow>
   \<exists>s s' v. decode_value exec s (snd (visible l ! j)) vals (idx + j) = (Inr v, s') \<and>
            map_of (inst_vars obj') (fst (visible l ! j)) = Some v"
proof (induction l arbitrary: st idx obj j)
  case Nil
  then show ?case by simp
next
  case (Cons p l)
  obtain field_name a where p: "p = (field_name, a)" by (cases p)
  from Cons.prems(2) p have d: "distinct (map fst l)" and nin: "field_name \<notin> fst ` set l"
    by auto
  show ?case
  proof (cases "startswith_underscore field_name")
    case True
    with Cons.prems p have "decode_fields exec st l vals idx obj = (Inr obj', st')"
      and "j < length (visible l)" by simp_all
    from Cons.IH [OF this(1) d this(2)] True p show ?thesis by simp
  next
    case False
    with Cons.prems(1) p obtain v s where
      dv: "decode_value exec st a vals idx = (Inr v, s)" and
      r: "decode_fields exec s l vals (idx + 1) (setattr obj field_name v) = (Inr obj', st')"
      by (auto split: prod.splits sum.splits)
    show ?thesis
    proof (cases j)
      case 0
      have "field_name \<notin> fst ` set (visible l)" using nin by auto
      with decode_fields_frame [OF r]
      have "map_of (inst_vars obj') field_name = Some v" by simp
      with dv 0 False p show ?thesis by auto
    next
      case (Suc j')
      with Cons.prems(3) False p have "j' < length (visible l)" by simp
      from Cons.IH [OF r d this] Suc False p show ?thesis by simp
    qed
  qed
qed

lemma decode_value_field:
  "decode_value exec s (IsField f) vals i = (Inr v, s') \<Longrightarrow> \<forall>oc. f \<noteq> ForeignKeyField oc \<Longrightarrow>
   i < length vals \<and> v = unconvert f (vals ! i) \<and> s' = s"
  by (cases f) (auto split: if_splits)

lemma decode_value_foreign:
  "decode_value exec s (IsField (ForeignKeyField oc)) vals i = (Inr v, s') \<Longrightarrow>
   i < length vals \<and>
   (\<exists>cur s1 tup loaded.
      execute exec s (''SELECT rowid, * FROM '' @ cls_name oc @ '' WHERE rowid=''
                        @ py_str (vals ! i) @ '' LIMIT 1'') = (Inr cur, s1) \<and>
      fetchone cur = Some tup \<and>
      init_from_db_tuple exec s1 oc tup = (Inr loaded, s') \<and>
      v = VObj loaded)"
  by (auto simp: table_name_def split: if_splits prod.splits sum.splits option.splits)

lemma decode_value_not_field:
  "decode_value exec s NotField vals i \<noteq> (Inr v, s')"
  by simp

lemma decode_fields_total:
  "\<forall>p\<in>set (visible l). \<exists>f. snd p = IsField f \<and> (\<forall>oc. f \<noteq> ForeignKeyField oc) \<Longrightarrow>
   idx + length (visible l) \<le> length vals \<Longrightarrow>
   \<exists>obj'. decode_fields exec st l vals idx obj = (Inr obj', st)"
proof (induction l arbitrary: idx obj)
  case Nil
  then show ?case by simp
next
  case (Cons p l)
  obtain field_name a where p: "p = (field_name, a)" by (cases p)
  show ?case
  proof (cases "startswith_underscore field_name")
    case True
    with Cons p show ?thesis by simp
  next
    case False
    with Cons.prems(1) p obtain f where a: "a = IsField f" and f: "\<forall>oc. f \<noteq> ForeignKeyField oc"
      by auto
    from Cons.prems(2) False p have i: "idx < length vals"
      and r: "(idx + 1) + length (visible l) \<le> length vals" by simp_all
    from f i have dv: "decode_value exec st (IsField f) vals idx = (Inr (unconvert f (vals ! idx)), st)"
      by (cases f) simp_all
    from Cons.prems(1) have "\<forall>p\<in>set (visible l). \<exists>f. snd p = IsField f \<and> (\<forall>oc. f \<noteq> ForeignKeyField oc)"
      by simp
    from Cons.IH [OF this r] dv False p a show ?thesis by simp
  qed
qed

section \<open>Lemmas about literals\<close>

lemma literal_body_plain:
  "CHR 0x27 \<notin> set v \<Longrightarrow> literal_body (v @ [CHR 0x27]) = Some v"
proof (induction v)
  case Nil
  then show ?case by simp
next
  case (Cons c v)
  then show ?case by (cases v) auto
qed

lemma literal_body_shorter:
  "literal_body s = Some r \<Longrightarrow> length r < length s"
proof (induction s arbitrary: r rule: literal_body.induct)
  case 1
  then show ?case by simp
next
  case (2 c)
  then show ?case by (simp split: if_splits)
next
  case (3 c d cs)
  then show ?case by (fastforce split: if_splits)
qed

lemma literal_body_quoted:
  "literal_body s = Some r \<Longrightarrow> CHR 0x27 \<in> set (butlast s) \<Longrightarrow> length r + 2 \<le> length s"
proof (induction s arbitrary: r rule: literal_body.induct)
  case 1
  then show ?case by simp
next
  case (2 c)
  then show ?case by simp
next
  case (3 c d cs)
  show ?case
  proof (cases "c = CHR 0x27")
    case True
    with "3.prems"(1) obtain r' where "literal_body cs = Some r'" "r = CHR 0x27 # r'"
      by (auto split: if_splits)
    with literal_body_shorter [of cs r'] show ?thesis by simp
  next
    case False
    with "3.prems"(1) obtain r' where b: "literal_body (d # cs) = Some r'" and r: "r = c # r'"
      by auto
    from False "3.prems"(2) have "CHR 0x27 \<in> set (butlast (d # cs))" by simp
    from "3.IH"(2) [OF False b this] r show ?thesis by simp
  qed
qed

section \<open>Lemmas about table creation\<close>

lemma create_columns_values:
  "create_columns exec st l columns = (Inr cols, st1) \<Longrightarrow>
   \<exists>ds. cols = columns @ ds \<and>
        map (\<lambda>p. attr_column_declaration (snd p) (fst p)) (visible l) = map Inr ds"
proof (induction l arbitrary: st columns)
  case Nil
  then show ?case by simp
next
  case (Cons p l)
  obtain field_name a where p: "p = (field_name, a)" by (cases p)
  from Cons.prems p obtain u s where
    e: "ensure_foreign_table exec st a = (Inr u, s)"
    by (auto split: prod.splits sum.splits)
  show ?case
  proof (cases "startswith_underscore field_name")
    case True
    with Cons.prems p e have "create_columns exec s l columns = (Inr cols, st1)" by simp
    from Cons.IH [OF this] True p show ?thesis by simp
  next
    case False
    with Cons.prems p e obtain d where d: "attr_column_declaration a field_name = Inr d"
      and r: "create_columns exec s l (columns @ [d]) = (Inr cols, st1)"
      by (auto split: sum.splits)
    from Cons.IH [OF r] obtain ds where "cols = (columns @ [d]) @ ds"
      and "map (\<lambda>p. attr_column_declaration (snd p) (fst p)) (visible l) = map Inr ds" by blast
    with False p d show ?thesis by (intro exI [of _ "d # ds"]) simp
  qed
qed

lemma create_constraints_prefix:
  "create_constraints l columns = Inr cols' \<Longrightarrow> \<exists>cs. cols' = columns @ cs"
proof (induction l arbitrary: columns)
  case Nil
  then show ?case by simp
next
  case (Cons p l)
  obtain field_name a where p: "p = (field_name, a)" by (cases p)
  from Cons.prems p consider "create_constraints l columns = Inr cols'"
    | constr where "create_constraints l (columns @ [constr]) = Inr cols'"
    by (auto split: if_splits sum.splits option.splits)
  then show ?case
  proof cases
    case 1
    from Cons.IH [OF this] show ?thesis .
  next
    case 2
    from Cons.IH [OF this] show ?thesis by auto
  qed
qed

section \<open>Lemmas about the reading of UPDATE statements\<close>









lemma token_of_text_not_symbol [simp]: "\<not> is_symbol (token_of_text v)"
  by (simp add: token_of_text_def)












lemma update_statement_select [simp]: "update_statement (Word ''SELECT'' # ts) = None"
  by (simp add: update_statement_def split: list.splits token.splits)






section \<open>Theorems\<close>

text \<open>
  C1. Table creation, row insertion and row decoding enumerate the same sequence, the
  class namespace in declaration order without the names that begin with an underscore
  (\<open>fields_of\<close>). For the field \<open>field_name\<close> at position \<open>i\<close> of that sequence, in a
  class whose namespace has distinct names: the column list of \<^verbatim>\<open>CREATE TABLE\<close> has the
  field's declaration at position \<open>i\<close> (constraints come after all columns), the value list
  of \<^verbatim>\<open>INSERT\<close> has the field's converted value at position \<open>i\<close>, and the decoded
  instance holds for the field the value decoded from position \<open>i\<close> of the row (the tuple
  without its leading identity).
\<close>

theorem schema_positions:
  assumes "distinct (map fst (cls_vars c))"
      and "i < length (fields_of c)"
      and "fields_of c ! i = (field_name, a)"
  shows "(create_columns exec st (cls_vars c) [] = (Inr cols, st1) \<and>
          create_constraints (cls_vars c) cols = Inr cols' \<longrightarrow>
            attr_column_declaration a field_name = Inr (cols' ! i) \<and>
            length (fields_of c) \<le> length cols' \<and>
            create_table exec st c =
              (case execute exec st1
                      (''CREATE TABLE '' @ cls_name c @ '' ('' @ join_with '', '' cols' @ '')'') of
                 (Inl e, st2) \<Rightarrow> (Inl e, st2)
               | (Inr cur, st2) \<Rightarrow> (Inr (), st2))) \<and>
         (insert_columns (cls_vars c) self [] = Inr vals \<longrightarrow>
            convert_attribute a self field_name = Inr (vals ! i) \<and>
            length vals = length (fields_of c)) \<and>
         (init_from_db_tuple exec st3 c (rowid # row) = (Inr obj, st4) \<longrightarrow>
            i < length row \<and>
            (\<exists>s s' v. decode_value exec s a row i = (Inr v, s') \<and>
                      map_of (inst_vars obj) field_name = Some v))"
proof (intro conjI impI)
  assume h: "create_columns exec st (cls_vars c) [] = (Inr cols, st1) \<and>
          create_constraints (cls_vars c) cols = Inr cols'"
  from create_columns_values [of exec st "cls_vars c" "[]" cols st1] h
  have m: "map (\<lambda>p. attr_column_declaration (snd p) (fst p)) (fields_of c) = map Inr cols"
    by (simp add: fields_of_def)
  then have len: "length cols = length (fields_of c)" by (metis length_map)
  from create_constraints_prefix h obtain cs where cs: "cols' = cols @ cs" by blast
  from m assms(2) have "map (\<lambda>p. attr_column_declaration (snd p) (fst p)) (fields_of c) ! i
      = map Inr cols ! i" by simp
  with assms(2,3) len have "attr_column_declaration a field_name = Inr (cols ! i)" by simp
  with cs len assms(2) show "attr_column_declaration a field_name = Inr (cols' ! i)"
    by (simp add: nth_append)
  from cs len show "length (fields_of c) \<le> length cols'" by simp
  from h show "create_table exec st c =
              (case execute exec st1
                      (''CREATE TABLE '' @ cls_name c @ '' ('' @ join_with '', '' cols' @ '')'') of
                 (Inl e, st2) \<Rightarrow> (Inl e, st2)
               | (Inr cur, st2) \<Rightarrow> (Inr (), st2))"
    by (simp add: Let_def append_columns_concat table_name_def)
next
  assume h: "insert_columns (cls_vars c) self [] = Inr vals"
  from insert_columns_values [OF h]
  have m: "map (\<lambda>p. convert_attribute (snd p) self (fst p)) (fields_of c) = map Inr vals"
    by (simp add: fields_of_def)
  then show len: "length vals = length (fields_of c)" by (metis length_map)
  from m assms(2) have "map (\<lambda>p. convert_attribute (snd p) self (fst p)) (fields_of c) ! i
      = map Inr vals ! i" by simp
  with assms(2,3) len show "convert_attribute a self field_name = Inr (vals ! i)" by simp
next
  assume h: "init_from_db_tuple exec st3 c (rowid # row) = (Inr obj, st4)"
  then obtain obj0 where
    d: "decode_fields exec st3 (cls_vars c) row 0 (Inst c VNone []) = (Inr obj0, st4)" and
    o: "obj = Inst (inst_cls obj0) rowid (inst_vars obj0)"
    by (auto split: prod.splits sum.splits)
  from assms(2) have "i < length (visible (cls_vars c))" by (simp add: fields_of_def)
  from decode_fields_positions [OF d assms(1) this] assms(3) o
  obtain s s' v where dv: "decode_value exec s a row i = (Inr v, s')"
    and mo: "map_of (inst_vars obj) field_name = Some v"
    by (auto simp: fields_of_def)
  from dv show "i < length row"
    by (cases a; cases "i < length row") (auto elim: decode_value.elims)
  from dv mo show "\<exists>s s' v. decode_value exec s a row i = (Inr v, s') \<and>
                      map_of (inst_vars obj) field_name = Some v" by blast
qed

theorem schema_positions_witness:
  "distinct (map fst (cls_vars EnrollmentRecord)) \<and>
   fields_of EnrollmentRecord ! 1 = (''seat'', IsField IntField) \<and>
   statements (snd (create_table scripted (connected [answer [[VInt 1]] VNone, answer [] VNone])
                      EnrollmentRecord)) =
     [probe ''Course'',
      ''CREATE TABLE EnrollmentRecord (course INTEGER, seat INTEGER, FOREIGN KEY(course) REFERENCES Course(rowid))''] \<and>
   attr_column_declaration (IsField IntField) ''seat'' =
     Inr ([''course INTEGER'', ''seat INTEGER'', ''FOREIGN KEY(course) REFERENCES Course(rowid)''] ! 1) \<and>
   convert_attribute (IsField IntField) enrollment ''seat'' = Inr ([VInt 7, VInt 12] ! 1) \<and>
   (\<exists>s s' v. decode_value scripted s (IsField IntField) [VInt 7, VInt 12] 1 = (Inr v, s') \<and>
      map_of [(''course'', VObj (Inst Course (VInt 7)
                 [(''dept'', VStr ''Science''), (''name'', VStr ''General Chemistry'')])),
              (''seat'', VInt 12)] ''seat'' = Some v)"
proof -
  let ?st1 = "\<lparr>DB_NAME = Some '':memory:'',
               DB_CONNECTION = Some ([probe ''Course''], [answer [] VNone])\<rparr>"
  let ?obj = "Inst EnrollmentRecord (VInt 1)
             [(''course'', VObj (Inst Course (VInt 7)
                 [(''dept'', VStr ''Science''), (''name'', VStr ''General Chemistry'')])),
              (''seat'', VInt 12)]"
  have d: "distinct (map fst (cls_vars EnrollmentRecord))"
    by code_simp
  have i: "1 < length (fields_of EnrollmentRecord)"
    by code_simp
  have f: "fields_of EnrollmentRecord ! 1 = (''seat'', IsField IntField)"
    by code_simp
  have cc: "create_columns scripted (connected [answer [[VInt 1]] VNone, answer [] VNone])
              (cls_vars EnrollmentRecord) [] = (Inr [''course INTEGER'', ''seat INTEGER''], ?st1) \<and>
            create_constraints (cls_vars EnrollmentRecord) [''course INTEGER'', ''seat INTEGER''] =
              Inr [''course INTEGER'', ''seat INTEGER'', ''FOREIGN KEY(course) REFERENCES Course(rowid)'']"
    by code_simp
  have ic: "insert_columns (cls_vars EnrollmentRecord) enrollment [] = Inr [VInt 7, VInt 12]"
    by code_simp
  have dr: "init_from_db_tuple scripted
     (connected [answer [[VInt 7, VStr ''Science'', VStr ''General Chemistry'']] VNone])
     EnrollmentRecord (VInt 1 # [VInt 7, VInt 12]) =
     (Inr ?obj,
      \<lparr>DB_NAME = Some '':memory:'',
        DB_CONNECTION = Some ([''SELECT rowid, * FROM Course WHERE rowid=7 LIMIT 1''], [])\<rparr>)"
    by code_simp
  note th = schema_positions [OF d i f]
  note a = th [THEN conjunct1, THEN mp, OF cc]
  note b = th [THEN conjunct2, THEN conjunct1, THEN mp, OF ic]
  note c = th [THEN conjunct2, THEN conjunct2, THEN mp, OF dr]
  have ct: "statements (snd (create_table scripted (connected [answer [[VInt 1]] VNone, answer [] VNone])
                      EnrollmentRecord)) =
     [probe ''Course'',
      ''CREATE TABLE EnrollmentRecord (course INTEGER, seat INTEGER, FOREIGN KEY(course) REFERENCES Course(rowid))'']"
    unfolding a [THEN conjunct2, THEN conjunct2] by code_simp
  from d f ct a b c show ?thesis by simp
qed

text \<open>
  C2. The claim: an operation that executes statement text with no active connection
  fails at once as a precondition violation, without using the absent connection.
  The code: with \<^verbatim>\<open>DB_CONNECTION\<close> equal to \<^verbatim>\<open>None\<close> the assertion of \<^verbatim>\<open>execute\<close> passes
  (it tests the method object), and the failure is the \<^verbatim>\<open>AttributeError\<close> raised by
  \<^verbatim>\<open>None.cursor()\<close>, not an \<^verbatim>\<open>AssertionError\<close>.
\<close>

theorem execute_without_connection:
  "execute exec \<lparr>DB_NAME = None, DB_CONNECTION = None\<rparr> sql
     = (Inl AttributeError, \<lparr>DB_NAME = None, DB_CONNECTION = None\<rparr>)"
  by (simp add: execute_def bound_method_truth_def)

text \<open>
  C5. \<^verbatim>\<open>save\<close> on an instance whose identity is absent converts every schema field with
  \<^verbatim>\<open>convert\<close> in schema order (the values \<open>vs\<close>), issues
  \<^verbatim>\<open>INSERT INTO <name> VALUES (<v1>, <v2>, ...)\<close> without the identity and stores the
  cursor's \<^verbatim>\<open>lastrowid\<close> on the instance; on an instance whose identity is present it
  issues \<^verbatim>\<open>UPDATE <name> SET f1=<v1>, f2=<v2>, ... WHERE rowid=<identity>\<close> with every
  schema field. Both after the table has been ensured.
\<close>

theorem save_statements:
  assumes "ensure_table_exists exec st (inst_cls self) = (Inr u, st')"
      and "map (\<lambda>p. convert_attribute (snd p) self (fst p)) (fields_of (inst_cls self)) = map Inr vs"
  shows "(inst_id self = VNone \<longrightarrow>
            save exec st self =
              (case execute exec st'
                      (''INSERT INTO '' @ cls_name (inst_cls self) @ '' VALUES (''
                         @ join_with '', '' (map py_str vs) @ '')'') of
                 (Inl e, st'') \<Rightarrow> (Inl e, st'')
               | (Inr cur, st'') \<Rightarrow>
                   (Inr (Inst (inst_cls self) (lastrowid cur) (inst_vars self)), st''))) \<and>
         (inst_id self \<noteq> VNone \<longrightarrow>
            save exec st self =
              (case execute exec st'
                      (''UPDATE '' @ cls_name (inst_cls self) @ '' SET ''
                         @ join_with '', ''
                             (map (\<lambda>(p, v). fst p @ ''='' @ py_str v)
                                (zip (fields_of (inst_cls self)) vs))
                         @ '' WHERE rowid='' @ py_str (inst_id self)) of
                 (Inl e, st'') \<Rightarrow> (Inl e, st'')
               | (Inr cur, st'') \<Rightarrow> (Inr self, st'')))"
proof -
  have len: "length vs = length (fields_of (inst_cls self))"
    using assms(2) by (metis length_map)
  have ins: "insert_columns (cls_vars (inst_cls self)) self [] = Inr vs"
    using insert_columns_Inr [of self "cls_vars (inst_cls self)" vs "[]"] assms(2)
    by (simp add: fields_of_def)
  have upd: "update_columns (cls_vars (inst_cls self)) self [] =
        Inr (map (\<lambda>(p, v). fst p @ ''='' @ py_str v) (zip (fields_of (inst_cls self)) vs))"
    using update_columns_Inr [of self "cls_vars (inst_cls self)" vs "[]"] assms(2)
    by (simp add: fields_of_def)
  show ?thesis
    using assms(1) ins upd len
    by (simp add: save_def Let_def append_columns_concat table_name_def)
qed

theorem save_statements_witness:
  "fst (save scripted (connected [answer [[VInt 1]] VNone, answer [] (VInt 1)]) p1_new)
     = Inr p1_saved \<and>
   statements (snd (save scripted (connected [answer [[VInt 1]] VNone, answer [] (VInt 1)]) p1_new))
     = [probe ''Coord3D'',
        ''INSERT INTO Coord3D VALUES (1, 2, 3, '' @ [CHR 0x27] @ ''p1'' @ [CHR 0x27] @ '')''] \<and>
   fst (save scripted (connected [answer [[VInt 1]] VNone, answer [] VNone]) p1_saved)
     = Inr p1_saved \<and>
   statements (snd (save scripted (connected [answer [[VInt 1]] VNone, answer [] VNone]) p1_saved))
     = [probe ''Coord3D'',
        ''UPDATE Coord3D SET x=1, y=2, z=3, name='' @ [CHR 0x27] @ ''p1'' @ [CHR 0x27]
          @ '' WHERE rowid=1'']"
proof -
  let ?vs = "[VInt 1, VInt 2, VInt 3, VStr ([CHR 0x27] @ ''p1'' @ [CHR 0x27])]"
  let ?st1 = "\<lparr>DB_NAME = Some '':memory:'',
                DB_CONNECTION = Some ([probe ''Coord3D''], [answer [] (VInt 1)])\<rparr>"
  let ?st2 = "\<lparr>DB_NAME = Some '':memory:'',
                DB_CONNECTION = Some ([probe ''Coord3D''], [answer [] VNone])\<rparr>"
  have e1: "ensure_table_exists scripted (connected [answer [[VInt 1]] VNone, answer [] (VInt 1)])
              (inst_cls p1_new) = (Inr (), ?st1)"
    by code_simp
  have c1: "map (\<lambda>p. convert_attribute (snd p) p1_new (fst p)) (fields_of (inst_cls p1_new))
              = map Inr ?vs"
    by code_simp
  have e2: "ensure_table_exists scripted (connected [answer [[VInt 1]] VNone, answer [] VNone])
              (inst_cls p1_saved) = (Inr (), ?st2)"
    by code_simp
  have c2: "map (\<lambda>p. convert_attribute (snd p) p1_saved (fst p)) (fields_of (inst_cls p1_saved))
              = map Inr ?vs"
    by code_simp
  have i: "inst_id p1_new = VNone" "inst_id p1_saved \<noteq> VNone"
    by (simp_all add: p1_new_def p1_saved_def)
  note ins = save_statements [OF e1 c1, THEN conjunct1, rule_format, OF i(1)]
  note upd = save_statements [OF e2 c2, THEN conjunct2, rule_format, OF i(2)]
  show ?thesis
    unfolding ins upd by code_simp
qed

text \<open>
  C4. The claim gives the statement as \<^verbatim>\<open>SELECT rowid, * FROM <Name>\<close> followed, for a
  non-empty filter, by \<^verbatim>\<open>WHERE <col1>=<v1> AND <col2>=<v2> ...\<close> and no other text. The
  code writes every condition as \<^verbatim>\<open><col>=<v>\<close> followed by one space and separates
  conditions by \<^verbatim>\<open>AND \<close>, so a statement with conditions ends in a space. As amended:
  with \<open>cvs\<close> the values \<^verbatim>\<open>convert\<close> gives for the filter entries, in the order of
  the filter, the statement is the text below, and \<^verbatim>\<open>QuerySet.__init__\<close> executes it at
  once and keeps all rows the cursor returns.
\<close>

theorem query_string_shape:
  assumes "map (\<lambda>p. convert_filter c (fst p) (snd p)) kwargs = map Inr cvs"
  shows "get_query_string c kwargs =
           Inr (''SELECT rowid, * FROM '' @ cls_name c @
                  (if kwargs = [] then []
                   else '' WHERE '' @
                          join_with ''AND ''
                            (map (\<lambda>(p, cv). fst p @ ''='' @ py_str cv @ '' '') (zip kwargs cvs)))) \<and>
         QuerySet_init exec st c kwargs =
           (case execute exec st
                   (''SELECT rowid, * FROM '' @ cls_name c @
                      (if kwargs = [] then []
                       else '' WHERE '' @
                              join_with ''AND ''
                                (map (\<lambda>(p, cv). fst p @ ''='' @ py_str cv @ '' '') (zip kwargs cvs)))) of
              (Inl e, st') \<Rightarrow> (Inl e, st')
            | (Inr cur, st') \<Rightarrow>
                (Inr \<lparr>filter_kwargs = kwargs, model_cls = c, query_result = cur,
                      items = fetchall cur\<rparr>, st'))"
proof -
  let ?conds = "join_with ''AND '' (map (\<lambda>(p, cv). fst p @ ''='' @ py_str cv @ '' '') (zip kwargs cvs))"
  let ?sql = "list_of_str (''SELECT rowid, * FROM '' @ table_name c)"
  have g: "get_query_string c kwargs =
           Inr (''SELECT rowid, * FROM '' @ cls_name c @
                  (if kwargs = [] then [] else '' WHERE '' @ ?conds))"
  proof (cases "kwargs = []")
    case True
    then show ?thesis by (simp add: get_query_string_def table_name_def)
  next
    case False
    from query_conditions_Inr [OF assms, of "length kwargs" 0 "?sql @ ['' WHERE '']"]
    obtain sql' where "query_conditions c (length kwargs) 0 kwargs (?sql @ ['' WHERE '']) = Inr sql'"
      and "concat sql' = concat (?sql @ ['' WHERE '']) @ ?conds"
      by auto
    with False show ?thesis
      by (simp add: get_query_string_def table_name_def)
  qed
  show ?thesis
    by (simp only: QuerySet_init_def g sum.case simp_thms)
qed

theorem query_string_shape_witness:
  "get_query_string Coord3D [(''x'', VInt 1), (''name'', VStr ''p2'')] =
     Inr (''SELECT rowid, * FROM Coord3D WHERE x=1 AND name='' @ [CHR 0x27] @ ''p2'' @ [CHR 0x27] @ '' '') \<and>
   fst (QuerySet_init scripted
          (connected [answer [[VInt 2, VInt 1, VInt 3, VInt 2, VStr ''p2'']] VNone])
          Coord3D [(''x'', VInt 1), (''name'', VStr ''p2'')]) =
     Inr \<lparr>filter_kwargs = [(''x'', VInt 1), (''name'', VStr ''p2'')], model_cls = Coord3D,
          query_result = answer [[VInt 2, VInt 1, VInt 3, VInt 2, VStr ''p2'']] VNone,
          items = [[VInt 2, VInt 1, VInt 3, VInt 2, VStr ''p2'']]\<rparr>"
proof -
  have c: "map (\<lambda>p. convert_filter Coord3D (fst p) (snd p)) [(''x'', VInt 1), (''name'', VStr ''p2'')]
             = map Inr [VInt 1, VStr ([CHR 0x27] @ ''p2'' @ [CHR 0x27])]"
    by code_simp
  note g = query_string_shape [OF c, THEN conjunct1]
  note q = query_string_shape [OF c, THEN conjunct2]
  show ?thesis
    unfolding g q by code_simp
qed

text \<open>
  C4, the counterexample: a filter of two entries on \<open>Coord3D\<close>. The text the code builds
  differs from the text of the claimed shape by the trailing space.
\<close>

theorem query_string_trailing_space:
  "get_query_string Coord3D [(''x'', VInt 1), (''y'', VInt 2)] =
     Inr ''SELECT rowid, * FROM Coord3D WHERE x=1 AND y=2 '' \<and>
   spec_query_string ''Coord3D'' [(''x'', ''1''), (''y'', ''2'')] =
     ''SELECT rowid, * FROM Coord3D WHERE x=1 AND y=2'' \<and>
   get_query_string Coord3D [(''x'', VInt 1), (''y'', VInt 2)] \<noteq>
     Inr (spec_query_string ''Coord3D'' [(''x'', ''1''), (''y'', ''2'')])"
  by code_simp

text \<open>
  C9. The claim: a filter key that is not a declared schema field makes query
  construction fail with \<^verbatim>\<open>KeyError\<close> before any statement is executed. The code looks
  the key up in the whole class namespace and converts the entries in filter order. As
  amended: when the filter holds a key \<open>k\<close> that the class namespace does not hold,
  \<^verbatim>\<open>QuerySet.__init__\<close> fails and leaves the connector as it was, whatever the engine;
  the error is \<^verbatim>\<open>KeyError\<close> for \<open>k\<close> when every entry before it converts.
\<close>

theorem unknown_filter_key_fails:
  assumes "map_of (cls_vars c) k = None"
  shows "(\<exists>e. QuerySet_init exec st c (pre @ (k, v) # post) = (Inl e, st)) \<and>
         ((\<forall>p\<in>set pre. \<exists>cv. convert_filter c (fst p) (snd p) = Inr cv) \<longrightarrow>
            QuerySet_init exec st c (pre @ (k, v) # post) = (Inl (KeyError k), st))"
proof -
  let ?kw = "pre @ (k, v) # post"
  have "k \<in> fst ` set ?kw" by force
  from query_conditions_fails [OF assms this]
  obtain e where "query_conditions c (length ?kw) 0 ?kw
      (list_of_str (''SELECT rowid, * FROM '' @ table_name c) @ ['' WHERE '']) = Inl e"
    by blast
  then have a: "\<exists>e. get_query_string c ?kw = Inl e"
    by (simp add: get_query_string_def Let_def)
  have b: "(\<forall>p\<in>set pre. \<exists>cv. convert_filter c (fst p) (snd p) = Inr cv) \<Longrightarrow>
           get_query_string c ?kw = Inl (KeyError k)"
    using query_conditions_KeyError [OF assms] by (simp add: get_query_string_def Let_def)
  show ?thesis
    using a b by (auto simp: QuerySet_init_def)
qed

theorem unknown_filter_key_fails_witness:
  "QuerySet_init scripted (connected [answer [] VNone]) Coord3D
     [(''x'', VInt 1), (''w'', VInt 4), (''y'', VInt 2)]
   = (Inl (KeyError ''w''), connected [answer [] VNone])"
proof -
  have k: "map_of (cls_vars Coord3D) ''w'' = None"
    by code_simp
  have p: "\<forall>p\<in>set [(''x'', VInt 1)]. \<exists>cv. convert_filter Coord3D (fst p) (snd p) = Inr cv"
    by (simp add: convert_filter_def Coord3D_def)
  from unknown_filter_key_fails [OF k, of scripted "connected [answer [] VNone]" "[(''x'', VInt 1)]"
      "VInt 4" "[(''y'', VInt 2)]", THEN conjunct2, THEN mp, OF p]
  show ?thesis by simp
qed

text \<open>
  C9, the counterexample: two keys that are not schema fields of \<open>Tagged\<close>. The
  reserved name \<^verbatim>\<open>_shadow\<close> holds a field: the statement is built and executed. The name
  \<^verbatim>\<open>__doc__\<close> holds no field: the failure is \<^verbatim>\<open>AttributeError\<close>.
\<close>

theorem reserved_filter_key_counterexample:
  "''_shadow'' \<notin> fst ` set (fields_of Tagged) \<and>
   fst (QuerySet_init scripted (connected [answer [] VNone]) Tagged [(''_shadow'', VInt 5)]) =
     Inr \<lparr>filter_kwargs = [(''_shadow'', VInt 5)], model_cls = Tagged,
          query_result = answer [] VNone, items = []\<rparr> \<and>
   statements (snd (QuerySet_init scripted (connected [answer [] VNone]) Tagged [(''_shadow'', VInt 5)])) =
     [''SELECT rowid, * FROM Tagged WHERE _shadow=5 ''] \<and>
   ''__doc__'' \<notin> fst ` set (fields_of Tagged) \<and>
   QuerySet_init scripted (connected [answer [] VNone]) Tagged [(''__doc__'', VInt 5)] =
     (Inl AttributeError, connected [answer [] VNone])"
  by code_simp

text \<open>
  C8. The claim: indexing a result set inside the snapshot's range decodes the row at that
  position, and every position outside the range fails with an out-of-bounds error. The
  code indexes a Python list, where a negative position counts from the end. As amended,
  for a snapshot of \<open>n\<close> rows: a position \<open>0 \<le> key < n\<close> decodes the row at \<open>key\<close>, a
  position \<open>-n \<le> key < 0\<close> decodes the row at \<open>n + key\<close>, and a position \<open>key \<ge> n\<close> or
  \<open>key < -n\<close> fails with \<^verbatim>\<open>IndexError\<close>, the connector untouched.
\<close>

theorem getitem_positions:
  "(0 \<le> key \<and> key < int (length (items qs)) \<longrightarrow>
      QuerySet_getitem exec st qs key =
        init_from_db_tuple exec st (model_cls qs) (items qs ! nat key)) \<and>
   (- int (length (items qs)) \<le> key \<and> key < 0 \<longrightarrow>
      QuerySet_getitem exec st qs key =
        init_from_db_tuple exec st (model_cls qs) (items qs ! nat (int (length (items qs)) + key))) \<and>
   (int (length (items qs)) \<le> key \<or> key < - int (length (items qs)) \<longrightarrow>
      QuerySet_getitem exec st qs key = (Inl IndexError, st))"
  by (auto simp: QuerySet_getitem_def list_getitem_def Let_def add.commute)

theorem getitem_positions_witness:
  "QuerySet_getitem scripted (connected []) snapshot 1 =
     (Inr (Inst Coord3D (VInt 2)
             [(''x'', VInt 1), (''y'', VInt 3), (''z'', VInt 2), (''name'', VStr ''p2'')]),
      connected []) \<and>
   QuerySet_getitem scripted (connected []) snapshot (- 2) =
     (Inr (Inst Coord3D (VInt 1)
             [(''x'', VInt 1), (''y'', VInt 2), (''z'', VInt 3), (''name'', VStr ''p1'')]),
      connected []) \<and>
   QuerySet_getitem scripted (connected []) snapshot 2 = (Inl IndexError, connected []) \<and>
   QuerySet_getitem scripted (connected []) snapshot (- 3) = (Inl IndexError, connected [])"
proof -
  have l: "int (length (items snapshot)) = 2" by (simp add: snapshot_def)
  note th = getitem_positions [of _ snapshot scripted "connected []", unfolded l]
  have a: "QuerySet_getitem scripted (connected []) snapshot 1 =
        init_from_db_tuple scripted (connected []) (model_cls snapshot) (items snapshot ! nat 1)"
    using th [of 1] by simp
  have b: "QuerySet_getitem scripted (connected []) snapshot (- 2) =
        init_from_db_tuple scripted (connected []) (model_cls snapshot) (items snapshot ! nat (2 + - 2))"
    using th [of "- 2"] by simp
  have c: "QuerySet_getitem scripted (connected []) snapshot 2 = (Inl IndexError, connected [])"
    using th [of 2] by simp
  have d: "QuerySet_getitem scripted (connected []) snapshot (- 3) = (Inl IndexError, connected [])"
    using th [of "- 3"] by simp
  show ?thesis
    unfolding a b c d by code_simp
qed

text \<open>
  C8, the counterexample: position \<open>-1\<close> is outside the range \<open>0 .. 1\<close> of a snapshot
  of two rows, and indexing there decodes the last row.
\<close>

theorem getitem_negative_counterexample:
  "\<not> (0 \<le> (- 1 :: int) \<and> (- 1 :: int) < int (length (items snapshot))) \<and>
   QuerySet_getitem scripted (connected []) snapshot (- 1) =
     (Inr (Inst Coord3D (VInt 2)
             [(''x'', VInt 1), (''y'', VInt 3), (''z'', VInt 2), (''name'', VStr ''p2'')]),
      connected [])"
  by code_simp

text \<open>
  C7. For a row tuple \<open>rowid # vals\<close> and a class whose namespace has distinct names:
  when \<^verbatim>\<open>init_from_db_tuple\<close> returns an instance, its identity is the leading element
  of the tuple; the field at schema position \<open>i\<close> that is not a reference holds
  \<^verbatim>\<open>unconvert\<close> of the value at position \<open>i\<close>; for a reference field at position \<open>i\<close>
  one statement \<^verbatim>\<open>SELECT rowid, * FROM <Target> WHERE rowid=<vals[i]> LIMIT 1\<close> was executed,
  its first row decoded for the target class, and the field holds that instance. And
  when the schema has no reference field, every schema attribute is a field and the
  tuple has a value for each, decoding returns an instance and executes nothing.
\<close>

theorem decode_row:
  "(init_from_db_tuple exec st c (rowid # vals) = (Inr obj, st') \<and> distinct (map fst (cls_vars c)) \<longrightarrow>
      inst_id obj = rowid \<and> inst_cls obj = c \<and>
      (\<forall>i<length (fields_of c).
         i < length vals \<and>
         (\<forall>f. snd (fields_of c ! i) = IsField f \<longrightarrow> (\<forall>oc. f \<noteq> ForeignKeyField oc) \<longrightarrow>
              map_of (inst_vars obj) (fst (fields_of c ! i)) = Some (unconvert f (vals ! i))) \<and>
         (\<forall>oc. snd (fields_of c ! i) = IsField (ForeignKeyField oc) \<longrightarrow>
              (\<exists>s cur s1 tup loaded s2.
                 execute exec s (''SELECT rowid, * FROM '' @ cls_name oc @ '' WHERE rowid=''
                                   @ py_str (vals ! i) @ '' LIMIT 1'') = (Inr cur, s1) \<and>
                 fetchone cur = Some tup \<and>
                 init_from_db_tuple exec s1 oc tup = (Inr loaded, s2) \<and>
                 map_of (inst_vars obj) (fst (fields_of c ! i)) = Some (VObj loaded))))) \<and>
   ((\<forall>p\<in>set (fields_of c). \<exists>f. snd p = IsField f \<and> (\<forall>oc. f \<noteq> ForeignKeyField oc)) \<and>
    length (fields_of c) \<le> length vals \<longrightarrow>
      (\<exists>obj. init_from_db_tuple exec st c (rowid # vals) = (Inr obj, st)))"
proof (intro conjI impI)
  assume "(\<forall>p\<in>set (fields_of c). \<exists>f. snd p = IsField f \<and> (\<forall>oc. f \<noteq> ForeignKeyField oc)) \<and>
    length (fields_of c) \<le> length vals"
  then have "\<exists>obj'. decode_fields exec st (cls_vars c) vals 0 (Inst c VNone []) = (Inr obj', st)"
    using decode_fields_total [of "cls_vars c" 0 vals exec st "Inst c VNone []"]
    by (simp add: fields_of_def)
  then show "\<exists>obj. init_from_db_tuple exec st c (rowid # vals) = (Inr obj, st)"
    by auto
next
  assume a: "init_from_db_tuple exec st c (rowid # vals) = (Inr obj, st') \<and> distinct (map fst (cls_vars c))"
  then obtain obj0 where
    d: "decode_fields exec st (cls_vars c) vals 0 (Inst c VNone []) = (Inr obj0, st')" and
    o: "obj = Inst (inst_cls obj0) rowid (inst_vars obj0)"
    by (auto split: prod.splits sum.splits)
  from decode_fields_frame [OF d] have c0: "inst_cls obj0 = c" by simp
  from o show "inst_id obj = rowid" by simp
  from o c0 show "inst_cls obj = c" by simp
  show "\<forall>i<length (fields_of c).
         i < length vals \<and>
         (\<forall>f. snd (fields_of c ! i) = IsField f \<longrightarrow> (\<forall>oc. f \<noteq> ForeignKeyField oc) \<longrightarrow>
              map_of (inst_vars obj) (fst (fields_of c ! i)) = Some (unconvert f (vals ! i))) \<and>
         (\<forall>oc. snd (fields_of c ! i) = IsField (ForeignKeyField oc) \<longrightarrow>
              (\<exists>s cur s1 tup loaded s2.
                 execute exec s (''SELECT rowid, * FROM '' @ cls_name oc @ '' WHERE rowid=''
                                   @ py_str (vals ! i) @ '' LIMIT 1'') = (Inr cur, s1) \<and>
                 fetchone cur = Some tup \<and>
                 init_from_db_tuple exec s1 oc tup = (Inr loaded, s2) \<and>
                 map_of (inst_vars obj) (fst (fields_of c ! i)) = Some (VObj loaded)))"
  proof (intro allI impI)
    fix i assume i: "i < length (fields_of c)"
    then have "i < length (visible (cls_vars c))" by (simp add: fields_of_def)
    from decode_fields_positions [OF d _ this] a
    obtain s s' v where
      dv: "decode_value exec s (snd (fields_of c ! i)) vals i = (Inr v, s')" and
      m: "map_of (inst_vars obj) (fst (fields_of c ! i)) = Some v"
      using o by (auto simp: fields_of_def)
    show "i < length vals \<and>
         (\<forall>f. snd (fields_of c ! i) = IsField f \<longrightarrow> (\<forall>oc. f \<noteq> ForeignKeyField oc) \<longrightarrow>
              map_of (inst_vars obj) (fst (fields_of c ! i)) = Some (unconvert f (vals ! i))) \<and>
         (\<forall>oc. snd (fields_of c ! i) = IsField (ForeignKeyField oc) \<longrightarrow>
              (\<exists>s cur s1 tup loaded s2.
                 execute exec s (''SELECT rowid, * FROM '' @ cls_name oc @ '' WHERE rowid=''
                                   @ py_str (vals ! i) @ '' LIMIT 1'') = (Inr cur, s1) \<and>
                 fetchone cur = Some tup \<and>
                 init_from_db_tuple exec s1 oc tup = (Inr loaded, s2) \<and>
                 map_of (inst_vars obj) (fst (fields_of c ! i)) = Some (VObj loaded)))"
    proof (cases "snd (fields_of c ! i)")
      case NotField
      with dv show ?thesis by simp
    next
      case (IsField f)
      show ?thesis
      proof (cases "\<exists>oc. f = ForeignKeyField oc")
        case False
        with decode_value_field [of exec s f vals i v s'] dv IsField m show ?thesis by auto
      next
        case True
        then obtain oc where f: "f = ForeignKeyField oc" by blast
        from decode_value_foreign [of exec s oc vals i v s'] dv IsField f m
        show ?thesis by (simp del: decode_value.simps) blast
      qed
    qed
  qed
qed

theorem decode_row_witness:
  "init_from_db_tuple scripted
     (connected [answer [[VInt 7, VStr ''Science'', VStr ''General Chemistry'']] VNone])
     EnrollmentRecord [VInt 1, VInt 7, VInt 12] =
     (Inr (Inst EnrollmentRecord (VInt 1)
             [(''course'', VObj (Inst Course (VInt 7)
                 [(''dept'', VStr ''Science''), (''name'', VStr ''General Chemistry'')])),
              (''seat'', VInt 12)]),
      \<lparr>DB_NAME = Some '':memory:'',
        DB_CONNECTION = Some ([''SELECT rowid, * FROM Course WHERE rowid=7 LIMIT 1''], [])\<rparr>) \<and>
   distinct (map fst (cls_vars EnrollmentRecord)) \<and>
   inst_id (Inst EnrollmentRecord (VInt 1)
             [(''course'', VObj (Inst Course (VInt 7)
                 [(''dept'', VStr ''Science''), (''name'', VStr ''General Chemistry'')])),
              (''seat'', VInt 12)]) = VInt 1 \<and>
   (\<exists>obj. init_from_db_tuple scripted (connected []) Coord3D
             [VInt 2, VInt 1, VInt 3, VInt 2, VStr ''p2''] = (Inr obj, connected []))"
proof -
  let ?obj = "Inst EnrollmentRecord (VInt 1)
             [(''course'', VObj (Inst Course (VInt 7)
                 [(''dept'', VStr ''Science''), (''name'', VStr ''General Chemistry'')])),
              (''seat'', VInt 12)]"
  have h: "init_from_db_tuple scripted
     (connected [answer [[VInt 7, VStr ''Science'', VStr ''General Chemistry'']] VNone])
     EnrollmentRecord [VInt 1, VInt 7, VInt 12] =
     (Inr ?obj,
      \<lparr>DB_NAME = Some '':memory:'',
        DB_CONNECTION = Some ([''SELECT rowid, * FROM Course WHERE rowid=7 LIMIT 1''], [])\<rparr>)"
    by code_simp
  have d: "distinct (map fst (cls_vars EnrollmentRecord))"
    by code_simp
  from decode_row [THEN conjunct1, THEN mp, OF conjI [OF h d]]
  have i: "inst_id ?obj = VInt 1" by blast
  have f: "(\<forall>p\<in>set (fields_of Coord3D). \<exists>f. snd p = IsField f \<and> (\<forall>oc. f \<noteq> ForeignKeyField oc)) \<and>
           length (fields_of Coord3D) \<le> length [VInt 1, VInt 3, VInt 2, VStr ''p2'']"
    by (simp add: fields_of_def Coord3D_def)
  from decode_row [THEN conjunct2, THEN mp, OF f]
  have t: "\<exists>obj. init_from_db_tuple scripted (connected []) Coord3D
             [VInt 2, VInt 1, VInt 3, VInt 2, VStr ''p2''] = (Inr obj, connected [])" .
  from h d i t show ?thesis by (intro conjI)
qed

text \<open>
  C3. The claim: the Text field's conversion gives a literal that is safely delimited, with
  single quotes inside the value quoted. The code puts the value between two single quotes
  and changes nothing inside it. As amended: for every string \<open>v\<close> the conversion gives
  \<open>v\<close> between two single quotes, and that text is a literal denoting \<open>v\<close> exactly when
  \<open>v\<close> contains no single quote.
\<close>

theorem text_literal:
  "convert StringField (VStr v) = Inr (VStr ([CHR 0x27] @ v @ [CHR 0x27])) \<and>
   (literal_value ([CHR 0x27] @ v @ [CHR 0x27]) = Some v) = (CHR 0x27 \<notin> set v)"
proof -
  have "literal_body (v @ [CHR 0x27]) \<noteq> Some v" if "CHR 0x27 \<in> set v"
    using literal_body_quoted [of "v @ [CHR 0x27]" v] that by auto
  then show ?thesis
    using literal_body_plain [of v] by (auto simp: literal_value_def)
qed

text \<open>
  C3, the counterexample: a name with an apostrophe. The converted text is not a
  well-delimited literal, so it does not denote the value.
\<close>

theorem text_literal_counterexample:
  "convert StringField (VStr (''O'' @ [CHR 0x27] @ ''Brien'')) =
     Inr (VStr ([CHR 0x27] @ ''O'' @ [CHR 0x27] @ ''Brien'' @ [CHR 0x27])) \<and>
   literal_value ([CHR 0x27] @ ''O'' @ [CHR 0x27] @ ''Brien'' @ [CHR 0x27]) = None \<and>
   literal_value ([CHR 0x27] @ ''O'' @ [CHR 0x27] @ ''Brien'' @ [CHR 0x27]) \<noteq>
     Some (''O'' @ [CHR 0x27] @ ''Brien'')"
  by code_simp

text \<open>
  C10. \<^verbatim>\<open>delete\<close> leaves the instance as it was, identity included. So when an instance
  with an identity has been deleted and is saved again, \<^verbatim>\<open>save\<close> takes the update branch:
  after ensuring the table it issues \<^verbatim>\<open>UPDATE <name> SET ... WHERE rowid=<identity>\<close> for
  the deleted row, no \<^verbatim>\<open>INSERT\<close>. And \<^verbatim>\<open>delete\<close> on an instance that was never saved
  checks nothing: after ensuring the table it executes
  \<^verbatim>\<open>DELETE FROM <name> WHERE rowid=None\<close>.
\<close>

theorem delete_keeps_identity:
  "(delete exec st self = (Inr self', st1) \<longrightarrow> self' = self) \<and>
   (delete exec st self = (Inr self', st1) \<and> inst_id self \<noteq> VNone \<and>
    ensure_table_exists exec st1 (inst_cls self) = (Inr u, st2) \<and>
    map (\<lambda>p. convert_attribute (snd p) self (fst p)) (fields_of (inst_cls self)) = map Inr vs \<longrightarrow>
      save exec st1 self' =
        (case execute exec st2
                (''UPDATE '' @ cls_name (inst_cls self) @ '' SET ''
                   @ join_with '', ''
                       (map (\<lambda>(p, v). fst p @ ''='' @ py_str v) (zip (fields_of (inst_cls self)) vs))
                   @ '' WHERE rowid='' @ py_str (inst_id self)) of
           (Inl e, st3) \<Rightarrow> (Inl e, st3)
         | (Inr cur, st3) \<Rightarrow> (Inr self, st3))) \<and>
   (inst_id self = VNone \<and> ensure_table_exists exec st (inst_cls self) = (Inr u', st') \<longrightarrow>
      delete exec st self =
        (case execute exec st' (''DELETE FROM '' @ cls_name (inst_cls self) @ '' WHERE rowid=None'') of
           (Inl e, st3) \<Rightarrow> (Inl e, st3)
         | (Inr cur, st3) \<Rightarrow> (Inr self, st3)))"
proof (intro conjI impI)
  show same: "self' = self" if "delete exec st self = (Inr self', st1)"
    using that by (auto simp: delete_def Let_def split: prod.splits sum.splits)
  show "delete exec st self =
        (case execute exec st' (''DELETE FROM '' @ cls_name (inst_cls self) @ '' WHERE rowid=None'') of
           (Inl e, st3) \<Rightarrow> (Inl e, st3)
         | (Inr cur, st3) \<Rightarrow> (Inr self, st3))"
    if "inst_id self = VNone \<and> ensure_table_exists exec st (inst_cls self) = (Inr u', st')"
    using that by (simp add: delete_def table_name_def)
  show "save exec st1 self' =
        (case execute exec st2
                (''UPDATE '' @ cls_name (inst_cls self) @ '' SET ''
                   @ join_with '', ''
                       (map (\<lambda>(p, v). fst p @ ''='' @ py_str v) (zip (fields_of (inst_cls self)) vs))
                   @ '' WHERE rowid='' @ py_str (inst_id self)) of
           (Inl e, st3) \<Rightarrow> (Inl e, st3)
         | (Inr cur, st3) \<Rightarrow> (Inr self, st3))"
    if a: "delete exec st self = (Inr self', st1) \<and> inst_id self \<noteq> VNone \<and>
      ensure_table_exists exec st1 (inst_cls self) = (Inr u, st2) \<and>
      map (\<lambda>p. convert_attribute (snd p) self (fst p)) (fields_of (inst_cls self)) = map Inr vs"
  proof -
    from a same have s: "self' = self" by simp
    have len: "length vs = length (fields_of (inst_cls self))"
      using a by (metis length_map)
    have upd: "update_columns (cls_vars (inst_cls self)) self [] =
        Inr (map (\<lambda>(p, v). fst p @ ''='' @ py_str v) (zip (fields_of (inst_cls self)) vs))"
      using update_columns_Inr [of self "cls_vars (inst_cls self)" vs "[]"] a
      by (simp add: fields_of_def)
    show ?thesis
      using a s upd len
      by (simp add: save_def Let_def append_columns_concat table_name_def)
  qed
qed

theorem delete_keeps_identity_witness:
  "delete scripted
     (connected [answer [[VInt 1]] VNone, answer [] VNone, answer [[VInt 1]] VNone, answer [] VNone])
     p1_saved
     = (Inr p1_saved,
        \<lparr>DB_NAME = Some '':memory:'',
          DB_CONNECTION = Some ([probe ''Coord3D'', ''DELETE FROM Coord3D WHERE rowid=1''],
                                [answer [[VInt 1]] VNone, answer [] VNone])\<rparr>) \<and>
   statements (snd (save scripted
        \<lparr>DB_NAME = Some '':memory:'',
          DB_CONNECTION = Some ([probe ''Coord3D'', ''DELETE FROM Coord3D WHERE rowid=1''],
                                [answer [[VInt 1]] VNone, answer [] VNone])\<rparr>
        p1_saved))
     = [probe ''Coord3D'', ''DELETE FROM Coord3D WHERE rowid=1'', probe ''Coord3D'',
        ''UPDATE Coord3D SET x=1, y=2, z=3, name='' @ [CHR 0x27] @ ''p1'' @ [CHR 0x27]
          @ '' WHERE rowid=1''] \<and>
   statements (snd (delete scripted (connected [answer [[VInt 1]] VNone, answer [] VNone]) p1_new))
     = [probe ''Coord3D'', ''DELETE FROM Coord3D WHERE rowid=None'']"
proof -
  let ?st1 = "\<lparr>DB_NAME = Some '':memory:'',
          DB_CONNECTION = Some ([probe ''Coord3D'', ''DELETE FROM Coord3D WHERE rowid=1''],
                                [answer [[VInt 1]] VNone, answer [] VNone])\<rparr>"
  let ?st2 = "\<lparr>DB_NAME = Some '':memory:'',
          DB_CONNECTION = Some ([probe ''Coord3D'', ''DELETE FROM Coord3D WHERE rowid=1'',
                                 probe ''Coord3D''], [answer [] VNone])\<rparr>"
  let ?st3 = "\<lparr>DB_NAME = Some '':memory:'',
          DB_CONNECTION = Some ([probe ''Coord3D''], [answer [] VNone])\<rparr>"
  have d: "delete scripted
     (connected [answer [[VInt 1]] VNone, answer [] VNone, answer [[VInt 1]] VNone, answer [] VNone])
     p1_saved = (Inr p1_saved, ?st1)"
    by code_simp
  have i: "inst_id p1_saved \<noteq> VNone" "inst_id p1_new = VNone"
    by (simp_all add: p1_saved_def p1_new_def)
  have e: "ensure_table_exists scripted ?st1 (inst_cls p1_saved) = (Inr (), ?st2)"
    by code_simp
  have c: "map (\<lambda>p. convert_attribute (snd p) p1_saved (fst p)) (fields_of (inst_cls p1_saved))
             = map Inr [VInt 1, VInt 2, VInt 3, VStr ([CHR 0x27] @ ''p1'' @ [CHR 0x27])]"
    by code_simp
  have e0: "ensure_table_exists scripted (connected [answer [[VInt 1]] VNone, answer [] VNone])
              (inst_cls p1_new) = (Inr (), ?st3)"
    by code_simp
  note u = delete_keeps_identity [THEN conjunct2, THEN conjunct1, THEN mp,
             OF conjI [OF d conjI [OF i(1) conjI [OF e c]]]]
  note n = delete_keeps_identity [THEN conjunct2, THEN conjunct2, THEN mp, OF conjI [OF i(2) e0]]
  show ?thesis
    unfolding u n by code_simp
qed




end
